theory Spec2Isabelle
  imports Main "HOL-Library.Code_Target_Nat"
begin

section \<open>Strings, character markers and chunk markers\<close>

text \<open>
  A JavaScript string is a sequence of UTF-16 code units; \<open>text[i]\<close>, \<open>text.length\<close>
  and \<open>substring\<close> all count code units. Every character the tokenizer tests lies in the
  basic plane, where \<open>codePointAt(0)\<close> of the one-unit string \<open>text[i]\<close> is the unit itself.
\<close>

type_synonym jsstring = "nat list"

text \<open>The enum \<open>CharMarkers\<close> of \<open>types/index.ts\<close>; constructors carry the prefix \<open>M_\<close>
  because \<open>ChunkMarkers\<close> reuses the names OTHER, LATIN and CJK.\<close>

datatype CharMarkers =
    M_CONS | M_SUB_CONS | M_VOW | M_TSEK | M_NORMAL_PUNCT | M_SPECIAL_PUNCT
  | M_NUMERAL | M_SYMBOL | M_IN_SYL_MARK | M_NON_BO_NON_SKRT
  | M_SKRT_CONS | M_SKRT_SUB_CONS | M_SKRT_VOW
  | M_TRANSPARENT | M_LATIN | M_CJK | M_OTHER | M_NFC

text \<open>The numeric value of each enum member (\<open>CONS = 0\<close> is the one falsy value).\<close>

fun char_marker_value :: "CharMarkers \<Rightarrow> nat" where
  "char_marker_value M_CONS = 0"
| "char_marker_value M_SUB_CONS = 1"
| "char_marker_value M_VOW = 2"
| "char_marker_value M_TSEK = 3"
| "char_marker_value M_NORMAL_PUNCT = 4"
| "char_marker_value M_SPECIAL_PUNCT = 5"
| "char_marker_value M_NUMERAL = 6"
| "char_marker_value M_SYMBOL = 7"
| "char_marker_value M_IN_SYL_MARK = 8"
| "char_marker_value M_NON_BO_NON_SKRT = 9"
| "char_marker_value M_SKRT_CONS = 10"
| "char_marker_value M_SKRT_SUB_CONS = 11"
| "char_marker_value M_SKRT_VOW = 12"
| "char_marker_value M_TRANSPARENT = 13"
| "char_marker_value M_LATIN = 14"
| "char_marker_value M_CJK = 15"
| "char_marker_value M_OTHER = 16"
| "char_marker_value M_NFC = 17"

text \<open>The enum \<open>ChunkMarkers\<close>, constructors prefixed \<open>K_\<close>, and its numeric values.\<close>

datatype ChunkMarkers =
    K_TEXT | K_PUNCT | K_NON_BO | K_NON_PUNCT | K_NUM | K_NON_NUM
  | K_SYM | K_NON_SYM | K_BO | K_OTHER | K_LATIN | K_CJK

fun chunk_marker_value :: "ChunkMarkers \<Rightarrow> nat" where
  "chunk_marker_value K_TEXT = 100"
| "chunk_marker_value K_PUNCT = 101"
| "chunk_marker_value K_NON_BO = 102"
| "chunk_marker_value K_NON_PUNCT = 103"
| "chunk_marker_value K_NUM = 104"
| "chunk_marker_value K_NON_NUM = 105"
| "chunk_marker_value K_SYM = 106"
| "chunk_marker_value K_NON_SYM = 107"
| "chunk_marker_value K_BO = 108"
| "chunk_marker_value K_OTHER = 109"
| "chunk_marker_value K_LATIN = 110"
| "chunk_marker_value K_CJK = 111"

text \<open>Character constants of \<open>utils/constants.ts\<close> (the enum member TSEK is \<open>M_TSEK\<close>).\<close>

definition TSEK :: jsstring where "TSEK = [0x0F0B]"
definition AA :: jsstring where "AA = [0x0F60]"

section \<open>BoString: character classification\<close>

definition classifyTibetanCharacter :: "nat \<Rightarrow> CharMarkers" where
  "classifyTibetanCharacter codePoint =
    (if 0x0F40 \<le> codePoint \<and> codePoint \<le> 0x0F6C then M_CONS
     else if 0x0F90 \<le> codePoint \<and> codePoint \<le> 0x0FBC then M_SUB_CONS
     else if 0x0F71 \<le> codePoint \<and> codePoint \<le> 0x0F84 then M_VOW
     else if codePoint = 0x0F0B then M_TSEK
     else if 0x0F20 \<le> codePoint \<and> codePoint \<le> 0x0F33 then M_NUMERAL
     else if codePoint = 0x0F0D \<or> codePoint = 0x0F0E \<or> codePoint = 0x0F0F
           \<or> codePoint = 0x0F10 \<or> codePoint = 0x0F11 \<or> codePoint = 0x0F12
       then M_NORMAL_PUNCT
     else if 0x0F00 \<le> codePoint \<and> codePoint \<le> 0x0F17 then M_SPECIAL_PUNCT
     else if 0x0F1A \<le> codePoint \<and> codePoint \<le> 0x0F1F then M_SYMBOL
     else if codePoint = 0x0F7F \<or> (0x0F86 \<le> codePoint \<and> codePoint \<le> 0x0F8B)
       then M_IN_SYL_MARK
     else M_OTHER)"

definition classifySanskritCharacter :: "nat \<Rightarrow> CharMarkers" where
  "classifySanskritCharacter codePoint =
    (if 0x0915 \<le> codePoint \<and> codePoint \<le> 0x0939 then M_SKRT_CONS
     else if 0x093E \<le> codePoint \<and> codePoint \<le> 0x094C then M_SKRT_VOW
     else if 0x0958 \<le> codePoint \<and> codePoint \<le> 0x095F then M_SKRT_SUB_CONS
     else M_OTHER)"

text \<open>\<open>TIBETAN_RANGE\<close> is 0F00..0FFF; \<open>SANSKRIT_RANGES\<close> are 0900..097F and 0980..09FF.
  Space, tab, line feed and carriage return are the units 32, 9, 10 and 13.\<close>

definition classifyCharacter :: "nat \<Rightarrow> CharMarkers" where
  "classifyCharacter codePoint =
    (if 0x0F00 \<le> codePoint \<and> codePoint \<le> 0x0FFF then classifyTibetanCharacter codePoint
     else if (0x0900 \<le> codePoint \<and> codePoint \<le> 0x097F)
           \<or> (0x0980 \<le> codePoint \<and> codePoint \<le> 0x09FF)
       then classifySanskritCharacter codePoint
     else if (0x0041 \<le> codePoint \<and> codePoint \<le> 0x005A)
           \<or> (0x0061 \<le> codePoint \<and> codePoint \<le> 0x007A) then M_LATIN
     else if (0x4E00 \<le> codePoint \<and> codePoint \<le> 0x9FFF)
           \<or> (0x3400 \<le> codePoint \<and> codePoint \<le> 0x4DBF) then M_CJK
     else if codePoint = 32 \<or> codePoint = 9 \<or> codePoint = 10 \<or> codePoint = 13
           \<or> codePoint = 0x00A0
           \<or> codePoint = 0x2000 \<or> codePoint = 0x2001 \<or> codePoint = 0x2002
           \<or> codePoint = 0x2003 \<or> codePoint = 0x2004 \<or> codePoint = 0x2005
       then M_TRANSPARENT
     else M_OTHER)"

text \<open>\<open>classifyCharacters\<close>: a unit whose one-unit string is in the ignore set is
  TRANSPARENT, every other unit is classified by \<open>classifyCharacter\<close>.\<close>

definition classifyCharacters :: "jsstring \<Rightarrow> jsstring list \<Rightarrow> CharMarkers list" where
  "classifyCharacters txt ignoreChars =
     map (\<lambda>c. if [c] \<in> set ignoreChars then M_TRANSPARENT else classifyCharacter c) txt"

record BoString =
  bs_text :: jsstring
  baseStructure :: "CharMarkers list"

definition new_BoString :: "jsstring \<Rightarrow> jsstring list \<Rightarrow> BoString" where
  "new_BoString txt ignoreChars =
     \<lparr> bs_text = txt, baseStructure = classifyCharacters txt ignoreChars \<rparr>"

definition bs_length :: "BoString \<Rightarrow> nat" where
  "bs_length b = length (bs_text b)"

text \<open>\<open>BoString.getCharType\<close>: \<open>None\<close> stands for \<open>undefined\<close> (index out of range).\<close>

definition bs_getCharType :: "BoString \<Rightarrow> nat \<Rightarrow> CharMarkers option" where
  "bs_getCharType b i =
     (if i < length (baseStructure b) then Some (baseStructure b ! i) else None)"

text \<open>\<open>BoString.charAt\<close>: \<open>text[index] || ''\<close>.\<close>

definition charAt :: "BoString \<Rightarrow> nat \<Rightarrow> jsstring" where
  "charAt b i = (if i < length (bs_text b) then [bs_text b ! i] else [])"

section \<open>ChunkFramework\<close>

text \<open>A chunk is the tuple \<open>[marker, start, length]\<close>.\<close>

type_synonym chunk = "ChunkMarkers \<times> nat \<times> nat"

text \<open>
  \<open>chunkUsing\<close>: the \<open>for\<close> loop over \<open>i = start .. end - 1\<close> is a left fold over
  \<open>[start..<end]\<close>; the loop state is \<open>(chunks, currentStart, currentType)\<close>.
\<close>

fun chunkUsing_step ::
  "(nat \<Rightarrow> bool) \<Rightarrow> ChunkMarkers \<Rightarrow> ChunkMarkers \<Rightarrow>
   chunk list \<times> nat \<times> ChunkMarkers option \<Rightarrow> nat \<Rightarrow> chunk list \<times> nat \<times> ChunkMarkers option"
where
  "chunkUsing_step testFn yesValue noValue (chunks, currentStart, currentType) i =
     (let expectedType = (if testFn i then yesValue else noValue) in
      case currentType of
        None \<Rightarrow> (chunks, i, Some expectedType)
      | Some ct \<Rightarrow>
          if ct \<noteq> expectedType
          then (chunks @ [(ct, currentStart, i - currentStart)], i, Some expectedType)
          else (chunks, currentStart, currentType))"

definition chunkUsing ::
  "(nat \<Rightarrow> bool) \<Rightarrow> nat \<Rightarrow> nat \<Rightarrow> ChunkMarkers \<Rightarrow> ChunkMarkers \<Rightarrow> chunk list" where
  "chunkUsing testFn start end yesValue noValue =
     (case foldl (chunkUsing_step testFn yesValue noValue) ([], start, None) [start..<end] of
        (chunks, currentStart, currentType) \<Rightarrow>
          (case currentType of
             None \<Rightarrow> chunks
           | Some ct \<Rightarrow>
               if currentStart < end then chunks @ [(ct, currentStart, end - currentStart)]
               else chunks))"

text \<open>\<open>chunk\<close>: the same loop with the test result itself as the label.\<close>

fun chunk_step ::
  "(nat \<Rightarrow> bool) \<Rightarrow> (bool \<times> nat \<times> nat) list \<times> nat \<times> bool option \<Rightarrow> nat \<Rightarrow>
   (bool \<times> nat \<times> nat) list \<times> nat \<times> bool option"
where
  "chunk_step testFn (result, currentStart, currentMatches) i =
     (let matches = testFn i in
      case currentMatches of
        None \<Rightarrow> (result, i, Some matches)
      | Some cm \<Rightarrow>
          if cm \<noteq> matches
          then (result @ [(cm, currentStart, i - currentStart)], i, Some matches)
          else (result, currentStart, currentMatches))"

definition chunk :: "nat \<Rightarrow> nat \<Rightarrow> (nat \<Rightarrow> bool) \<Rightarrow> (bool \<times> nat \<times> nat) list" where
  "chunk start end testFn =
     (case foldl (chunk_step testFn) ([], start, None) [start..<end] of
        (result, currentStart, currentMatches) \<Rightarrow>
          (case currentMatches of
             None \<Rightarrow> result
           | Some cm \<Rightarrow>
               if currentStart < end then result @ [(cm, currentStart, end - currentStart)]
               else result))"

text \<open>Character tests of \<open>ChunkFramework\<close> used by the tokenization path.\<close>

definition isBoUnicode :: "BoString \<Rightarrow> nat \<Rightarrow> bool" where
  "isBoUnicode b charIndex =
     (case bs_getCharType b charIndex of
        None \<Rightarrow> False
      | Some charType \<Rightarrow> charType \<noteq> M_OTHER \<and> charType \<noteq> M_LATIN \<and> charType \<noteq> M_CJK)"

definition isTsekOrLongSkrtVowel :: "BoString \<Rightarrow> nat \<Rightarrow> bool" where
  "isTsekOrLongSkrtVowel b charIndex =
     (bs_getCharType b charIndex = Some M_TSEK
      \<or> charAt b charIndex = [0x0F7F]
      \<or> charAt b charIndex = [0x0F71])"

definition chunkBoText ::
  "BoString \<Rightarrow> nat \<Rightarrow> nat \<Rightarrow> ChunkMarkers \<Rightarrow> ChunkMarkers \<Rightarrow> chunk list" where
  "chunkBoText b start end yesValue noValue =
     chunkUsing (isBoUnicode b) start end yesValue noValue"

text \<open>
  \<open>syllabify\<close>. The merge loop runs over \<open>i = 0 .. indices.length - 1\<close> and overwrites
  \<open>indices[i - 1]\<close> in place; the array keeps its length, so the loop is a fold over
  \<open>[0..<length indices]\<close> with list update.
\<close>

fun syllabify_merge_step ::
  "(bool \<times> nat \<times> nat) list \<Rightarrow> nat \<Rightarrow> (bool \<times> nat \<times> nat) list" where
  "syllabify_merge_step indices i =
     (if fst (indices ! i) \<and> 0 < i \<and> \<not> fst (indices ! (i - 1))
      then indices[i - 1 :=
             (fst (indices ! (i - 1)),
              fst (snd (indices ! (i - 1))),
              snd (snd (indices ! (i - 1))) + snd (snd (indices ! i)))]
      else indices)"

definition syllabify :: "BoString \<Rightarrow> nat \<Rightarrow> nat \<Rightarrow> ChunkMarkers \<Rightarrow> chunk list" where
  "syllabify b start end yesValue =
     (let indices = chunk start end (isTsekOrLongSkrtVowel b);
          merged = foldl syllabify_merge_step indices [0..<length indices]
      in map (\<lambda>c. (yesValue, fst (snd c), snd (snd c))) (filter (\<lambda>c. \<not> fst c) merged))"

text \<open>
  A ChunkFrame entry \<open>[syllable, [marker, start, length]]\<close>. The first slot is typed
  \<open>number[] | null\<close>; \<open>serveSylsToTrie\<close> stores there the tuple that \<open>syllabify\<close>
  returned, so the slot holds a chunk tuple or \<open>null\<close>.
\<close>

type_synonym chunk_entry = "chunk option \<times> chunk"

record ChunkFramework =
  bs :: BoString
  cf_text :: jsstring
  chunks :: "chunk_entry list"
  spacesAsPunct :: bool

definition new_ChunkFramework :: "jsstring \<Rightarrow> jsstring list \<Rightarrow> bool \<Rightarrow> ChunkFramework" where
  "new_ChunkFramework txt ignoreChars sp =
     \<lparr> bs = new_BoString txt ignoreChars, cf_text = txt, chunks = [], spacesAsPunct = sp \<rparr>"

definition serve_entries :: "BoString \<Rightarrow> chunk \<Rightarrow> chunk_entry list" where
  "serve_entries b c =
     (case c of (type, start, len) \<Rightarrow>
        if type = K_BO
        then map (\<lambda>syl. (Some syl, (K_TEXT, start, len)))
                 (syllabify b start (start + len) K_TEXT)
        else [(None, (type, start, len))])"

definition serveSylsToTrie :: "ChunkFramework \<Rightarrow> ChunkFramework" where
  "serveSylsToTrie cf =
     (let boChunks = chunkBoText (bs cf) 0 (bs_length (bs cf)) K_BO K_OTHER
      in cf\<lparr> chunks := concat (map (serve_entries (bs cf)) boChunks) \<rparr>)"

text \<open>\<open>ChunkFramework.getCharType\<close>: \<open>this.bs.getCharType(position) || CharMarkers.OTHER\<close>;
  the falsy results are \<open>undefined\<close> and the value 0.\<close>

definition cf_getCharType :: "ChunkFramework \<Rightarrow> nat \<Rightarrow> CharMarkers" where
  "cf_getCharType cf position =
     (case bs_getCharType (bs cf) position of
        None \<Rightarrow> M_OTHER
      | Some ct \<Rightarrow> if char_marker_value ct = 0 then M_OTHER else ct)"

section \<open>Senses and trie node data\<close>

text \<open>
  Objects are modelled by their own keys: a field is \<open>None\<close> when the key is absent.
  \<open>SenseInfo\<close> and \<open>AffixationInfo\<close> are the interfaces of \<open>types/index.ts\<close>; field
  names carry a prefix (\<open>lemma\<close> and \<open>text\<close> are reserved words of the theory language).
  A sense object can have own keys beyond the five of the interface (\<open>updateNodeData\<close>
  pushes the whole data object as a sense); \<open>s_other\<close> lists their names. The code
  never reads their values on a sense, it only counts them in \<open>Object.keys\<close>.
\<close>

record SenseInfo =
  s_pos :: "jsstring option"
  s_freq :: "int option"
  s_lemma :: "jsstring option"
  s_sense :: "jsstring option"
  s_affixed :: "bool option"
  s_other :: "jsstring list"

record AffixationInfo =
  af_type :: jsstring
  af_len :: nat
  af_aa :: bool

text \<open>\<open>TrieNodeData\<close>; the key \<open>_\<close> (always the empty object) and \<open>version\<close> are never
  read or written by the modelled code and are left out.\<close>

record TrieNodeData =
  d_senses :: "SenseInfo list option"
  d_formFreq :: "int option"
  d_affixation :: "AffixationInfo option"
  d_sanskrit :: "bool option"

definition empty_data :: TrieNodeData where
  "empty_data = \<lparr> d_senses = None, d_formFreq = None, d_affixation = None, d_sanskrit = None \<rparr>"

text \<open>JavaScript truthiness of an optional string, number and boolean.\<close>

definition truthy_str :: "jsstring option \<Rightarrow> bool" where
  "truthy_str v = (case v of None \<Rightarrow> False | Some x \<Rightarrow> x \<noteq> [])"

definition truthy_num :: "int option \<Rightarrow> bool" where
  "truthy_num v = (case v of None \<Rightarrow> False | Some x \<Rightarrow> x \<noteq> 0)"

definition truthy_bool :: "bool option \<Rightarrow> bool" where
  "truthy_bool v = (case v of None \<Rightarrow> False | Some x \<Rightarrow> x)"

text \<open>ASCII string literals of the source as code units.\<close>

definition js :: "string \<Rightarrow> jsstring" where
  "js s = map of_char s"

datatype error = EmptyWord | EmptySyls | TypeError

section \<open>BasicTrie\<close>

text \<open>
  A \<open>TrieNode\<close>; \<open>children\<close> is a \<open>Map\<close>, kept as an association list in insertion
  order (\<open>addChild\<close> never inserts a label twice).
\<close>

datatype TrieNode =
  TrieNode (label: jsstring) (children: "(jsstring \<times> TrieNode) list") (leaf: bool)
           (data: TrieNodeData)

definition new_TrieNode :: "jsstring \<Rightarrow> TrieNode" where
  "new_TrieNode lbl = TrieNode lbl [] False empty_data"

definition isMatch :: "TrieNode \<Rightarrow> bool" where
  "isMatch n = leaf n"

definition getChild :: "TrieNode \<Rightarrow> jsstring \<Rightarrow> TrieNode option" where
  "getChild n lbl = map_of (children n) lbl"

record BasicTrie =
  head :: TrieNode

definition new_BasicTrie :: BasicTrie where
  "new_BasicTrie = \<lparr> head = new_TrieNode [] \<rparr>"

text \<open>
  A node reference is the list of labels that leads to the node from the head.
  \<open>node_at\<close> follows it; \<open>modify_at\<close> applies an in-place change to the node it names
  (and leaves the trie as it is when the path does not exist).
\<close>

fun node_at :: "TrieNode \<Rightarrow> jsstring list \<Rightarrow> TrieNode option" where
  "node_at n [] = Some n"
| "node_at n (k # ks) = (case map_of (children n) k of None \<Rightarrow> None | Some c \<Rightarrow> node_at c ks)"

fun modify_at :: "(TrieNode \<Rightarrow> TrieNode) \<Rightarrow> jsstring list \<Rightarrow> TrieNode \<Rightarrow> TrieNode"
  and modify_child ::
    "(TrieNode \<Rightarrow> TrieNode) \<Rightarrow> jsstring \<Rightarrow> jsstring list \<Rightarrow> (jsstring \<times> TrieNode) list
      \<Rightarrow> (jsstring \<times> TrieNode) list"
where
  "modify_at f [] n = f n"
| "modify_at f (k # ks) (TrieNode lbl cs lf d) = TrieNode lbl (modify_child f k ks cs) lf d"
| "modify_child f k ks [] = []"
| "modify_child f k ks (kc # rest) =
     (if fst kc = k then (fst kc, modify_at f ks (snd kc)) # rest
      else kc # modify_child f k ks rest)"

text \<open>\<open>isDiffMeaning\<close> (which, despite its name, tests that two meanings agree on the
  five sense keys) and \<open>addMeaning\<close>, returning the new array and the boolean.\<close>

definition isDiffMeaning :: "SenseInfo \<Rightarrow> SenseInfo \<Rightarrow> bool" where
  "isDiffMeaning m1 m2 =
     (s_pos m1 = s_pos m2 \<and> s_lemma m1 = s_lemma m2 \<and> s_freq m1 = s_freq m2
      \<and> s_sense m1 = s_sense m2 \<and> s_affixed m1 = s_affixed m2)"

definition addMeaning :: "SenseInfo list \<Rightarrow> SenseInfo \<Rightarrow> SenseInfo list \<times> bool" where
  "addMeaning senses meaning =
     (if list_ex (\<lambda>sense. isDiffMeaning sense meaning) senses then (senses, False)
      else (senses @ [meaning], True))"

text \<open>The \<open>word\<close> argument is \<open>string[] | string\<close>.\<close>

datatype word_arg = WordString jsstring | WordArray "jsstring list"

text \<open>\<open>!word || (Array.isArray(word) && word.length === 0)\<close>: the empty string is falsy,
  an array is truthy whatever its length.\<close>

fun word_is_empty :: "word_arg \<Rightarrow> bool" where
  "word_is_empty (WordString w) = (w = [])"
| "word_is_empty (WordArray ws) = (ws = [])"

fun wordArray :: "word_arg \<Rightarrow> jsstring list" where
  "wordArray (WordString w) = [w]"
| "wordArray (WordArray ws) = ws"

text \<open>
  The optional \<open>data\<close> argument of \<open>add\<close>, an object with any of the sense keys, a
  \<open>senses\<close> array and further keys that are copied to the node data.
\<close>

record EntryData =
  e_pos :: "jsstring option"
  e_lemma :: "jsstring option"
  e_freq :: "int option"
  e_sense :: "jsstring option"
  e_affixed :: "bool option"
  e_senses :: "SenseInfo list option"
  e_formFreq :: "int option"
  e_affixation :: "AffixationInfo option"
  e_sanskrit :: "bool option"

text \<open>
  The own keys of a data object that are not sense keys, by name (\<open>senses\<close>,
  \<open>formFreq\<close>, \<open>affixation\<close>, \<open>sanskrit\<close>); only their number is ever observed.
\<close>

definition entry_other_keys :: "EntryData \<Rightarrow> jsstring list" where
  "entry_other_keys dat =
     (if e_senses dat = None then [] else [js ''senses''])
     @ (if e_formFreq dat = None then [] else [js ''formFreq''])
     @ (if e_affixation dat = None then [] else [js ''affixation''])
     @ (if e_sanskrit dat = None then [] else [js ''sanskrit''])"

text \<open>\<open>updateNodeData\<close>. When one of pos, lemma, freq, sense is truthy the data object
  itself is pushed as a meaning, with all of its keys.\<close>

definition updateNodeData :: "TrieNodeData \<Rightarrow> EntryData \<Rightarrow> TrieNodeData" where
  "updateNodeData nd dat =
     (let senses0 = (case d_senses nd of None \<Rightarrow> [] | Some ss \<Rightarrow> ss);
          senses1 =
            (if truthy_str (e_pos dat) \<or> truthy_str (e_lemma dat) \<or> truthy_num (e_freq dat)
                \<or> truthy_str (e_sense dat)
             then fst (addMeaning senses0
                    \<lparr> s_pos = e_pos dat, s_freq = e_freq dat, s_lemma = e_lemma dat,
                      s_sense = e_sense dat, s_affixed = e_affixed dat,
                      s_other = entry_other_keys dat \<rparr>)
             else senses0);
          senses2 =
            (case e_senses dat of
               None \<Rightarrow> senses1
             | Some vs \<Rightarrow> foldl (\<lambda>acc sense. fst (addMeaning acc sense)) senses1 vs)
      in \<lparr> d_senses = Some senses2,
           d_formFreq = (case e_formFreq dat of None \<Rightarrow> d_formFreq nd | Some v \<Rightarrow> Some v),
           d_affixation = (case e_affixation dat of None \<Rightarrow> d_affixation nd | Some v \<Rightarrow> Some v),
           d_sanskrit = (case e_sanskrit dat of None \<Rightarrow> d_sanskrit nd | Some v \<Rightarrow> Some v) \<rparr>)"

text \<open>
  \<open>add\<close>: follow the existing nodes, append a chain of new nodes for the remaining
  syllables, then mark the last node as a word end and attach the data.
\<close>

fun new_chain :: "(TrieNode \<Rightarrow> TrieNode) \<Rightarrow> jsstring \<Rightarrow> jsstring list \<Rightarrow> TrieNode" where
  "new_chain f k [] = f (new_TrieNode k)"
| "new_chain f k (k' # ks) = TrieNode k [(k', new_chain f k' ks)] False empty_data"

fun add_at :: "(TrieNode \<Rightarrow> TrieNode) \<Rightarrow> jsstring list \<Rightarrow> TrieNode \<Rightarrow> TrieNode"
  and add_child ::
    "(TrieNode \<Rightarrow> TrieNode) \<Rightarrow> jsstring \<Rightarrow> jsstring list \<Rightarrow> (jsstring \<times> TrieNode) list
      \<Rightarrow> (jsstring \<times> TrieNode) list"
where
  "add_at f [] n = f n"
| "add_at f (k # ks) (TrieNode lbl cs lf d) = TrieNode lbl (add_child f k ks cs) lf d"
| "add_child f k ks [] = [(k, new_chain f k ks)]"
| "add_child f k ks (kc # rest) =
     (if fst kc = k then (fst kc, add_at f ks (snd kc)) # rest
      else kc # add_child f k ks rest)"

definition mark_word_end :: "EntryData option \<Rightarrow> TrieNode \<Rightarrow> TrieNode" where
  "mark_word_end dat n =
     TrieNode (label n) (children n) True
       (case dat of
          Some d \<Rightarrow> updateNodeData (data n) d
        | None \<Rightarrow> (case d_senses (data n) of
                     None \<Rightarrow> (data n)\<lparr> d_senses := Some [] \<rparr>
                   | Some ss \<Rightarrow> data n))"

definition add :: "BasicTrie \<Rightarrow> word_arg \<Rightarrow> EntryData option \<Rightarrow> BasicTrie" where
  "add trie word dat = trie\<lparr> head := add_at (mark_word_end dat) (wordArray word) (head trie) \<rparr>"

text \<open>\<open>walk\<close>: one step from \<open>currentNode\<close> (from the head when it is null). The result
  carries the node together with the labels that lead to it.\<close>

type_synonym node_ref = "jsstring list \<times> TrieNode"

definition walk :: "BasicTrie \<Rightarrow> jsstring \<Rightarrow> node_ref option \<Rightarrow> node_ref option" where
  "walk trie char currentNode =
     (case (case currentNode of None \<Rightarrow> ([], head trie) | Some r \<Rightarrow> r) of
        (path, n) \<Rightarrow>
          (case getChild n char of None \<Rightarrow> None | Some c \<Rightarrow> Some (path @ [char], c)))"

text \<open>The navigation loop shared by \<open>hasWord\<close>, \<open>addData\<close> and \<open>deactivate\<close>: the node
  reached and whether every syllable had a child.\<close>

fun navigate :: "TrieNode \<Rightarrow> jsstring list \<Rightarrow> TrieNode \<times> bool" where
  "navigate n [] = (n, True)"
| "navigate n (syllable # rest) =
     (case getChild n syllable of
        None \<Rightarrow> (n, False)
      | Some child \<Rightarrow> navigate child rest)"

definition hasWord :: "BasicTrie \<Rightarrow> word_arg \<Rightarrow> error + (bool \<times> TrieNodeData)" where
  "hasWord trie word =
     (if word_is_empty word then Inl EmptyWord
      else (case navigate (head trie) (wordArray word) of
              (currentNode, exists) \<Rightarrow>
                Inr (if exists \<and> \<not> leaf currentNode then False else exists, data currentNode)))"

text \<open>The \<open>data\<close> argument of \<open>addData\<close> is \<open>any\<close>: a number, a non-null object, or
  something else.\<close>

datatype data_arg = DataNumber int | DataObject SenseInfo | DataOther

definition addData :: "BasicTrie \<Rightarrow> word_arg \<Rightarrow> data_arg \<Rightarrow> error + (bool \<times> BasicTrie)" where
  "addData trie word dat =
     (if word_is_empty word then Inl EmptyWord
      else (case navigate (head trie) (wordArray word) of
              (currentNode, exists) \<Rightarrow>
                if \<not> exists then Inr (False, trie)
                else if \<not> leaf currentNode then Inr (False, trie)
                else (case dat of
                        DataNumber x \<Rightarrow>
                          Inr (True,
                               trie\<lparr> head := modify_at
                                 (\<lambda>n. TrieNode (label n) (children n) (leaf n)
                                         ((data n)\<lparr> d_formFreq := Some x \<rparr>))
                                 (wordArray word) (head trie) \<rparr>)
                      | DataObject meaning \<Rightarrow>
                          (case addMeaning
                                  (case d_senses (data currentNode) of
                                     None \<Rightarrow> [] | Some ss \<Rightarrow> ss) meaning of
                             (senses, r) \<Rightarrow>
                               Inr (r,
                                    trie\<lparr> head := modify_at
                                      (\<lambda>n. TrieNode (label n) (children n) (leaf n)
                                              ((data n)\<lparr> d_senses := Some senses \<rparr>))
                                      (wordArray word) (head trie) \<rparr>))
                      | DataOther \<Rightarrow> Inr (False, trie))))"

definition deactivate :: "BasicTrie \<Rightarrow> word_arg \<Rightarrow> bool \<Rightarrow> error + (bool \<times> BasicTrie)" where
  "deactivate trie word reverse =
     (if word_is_empty word then Inl EmptyWord
      else (case navigate (head trie) (wordArray word) of
              (currentNode, exists) \<Rightarrow>
                if \<not> exists then Inr (False, trie)
                else Inr (True,
                          trie\<lparr> head := modify_at
                            (\<lambda>n. TrieNode (label n) (children n) reverse (data n))
                            (wordArray word) (head trie) \<rparr>)))"

section \<open>Token\<close>

text \<open>
  The fields of class \<open>Token\<close>, followed by the two properties the code adds through the
  index signature: \<open>sense\<close> (written by \<open>applyChosenSense\<close>) and \<open>formFreq\<close> (copied from
  the node data by \<open>Object.assign\<close>). \<open>charTypes\<close> holds the \<open>CharMarkers\<close> values that
  \<open>createToken\<close> stores; syllable indices are relative to the token start and may be
  negative.
\<close>

record Token =
  t_text :: jsstring
  t_textCleaned :: "jsstring option"
  t_textUnaffixed :: "jsstring option"
  t_pos :: "jsstring option"
  t_lemma :: "jsstring option"
  t_freq :: "int option"
  t_start :: nat
  t_length :: nat
  t_charTypes :: "CharMarkers list option"
  t_chunkType :: jsstring
  t_syllables :: "jsstring list option"
  t_syllableIndices :: "int list list option"
  t_syllableStartEnd :: "(int \<times> int) list option"
  t_senses :: "SenseInfo list option"
  t_sanskrit :: "bool option"
  t_affix :: "bool option"
  t_affixHost :: "bool option"
  t_affixation :: "AffixationInfo option"
  t_sense :: "jsstring option"
  t_formFreq :: "int option"

text \<open>A token as the class initialisers leave it.\<close>

definition default_Token :: Token where
  "default_Token =
     \<lparr> t_text = [], t_textCleaned = None, t_textUnaffixed = None, t_pos = None,
       t_lemma = None, t_freq = None, t_start = 0, t_length = 0, t_charTypes = None,
       t_chunkType = [], t_syllables = None, t_syllableIndices = None,
       t_syllableStartEnd = None, t_senses = None, t_sanskrit = None, t_affix = None,
       t_affixHost = None, t_affixation = None, t_sense = None, t_formFreq = None \<rparr>"

text \<open>The object \<open>toJSON\<close> returns and \<open>fromJSON\<close> reads: every key may be absent.\<close>

record TokenJSON =
  j_text :: "jsstring option"
  j_start :: "nat option"
  j_length :: "nat option"
  j_chunkType :: "jsstring option"
  j_textCleaned :: "jsstring option"
  j_textUnaffixed :: "jsstring option"
  j_pos :: "jsstring option"
  j_lemma :: "jsstring option"
  j_freq :: "int option"
  j_charTypes :: "CharMarkers list option"
  j_syllables :: "jsstring list option"
  j_syllableIndices :: "int list list option"
  j_syllableStartEnd :: "(int \<times> int) list option"
  j_senses :: "SenseInfo list option"
  j_sanskrit :: "bool option"
  j_affix :: "bool option"
  j_affixHost :: "bool option"
  j_affixation :: "AffixationInfo option"

text \<open>\<open>toJSON\<close>: \<open>if (this.x) json.x = this.x\<close> for every optional field except
  \<open>freq\<close>, which is tested with \<open>!== undefined\<close>. Arrays and objects are truthy.\<close>

definition toJSON :: "Token \<Rightarrow> TokenJSON" where
  "toJSON t =
     \<lparr> j_text = Some (t_text t), j_start = Some (t_start t), j_length = Some (t_length t),
       j_chunkType = Some (t_chunkType t),
       j_textCleaned = (if truthy_str (t_textCleaned t) then t_textCleaned t else None),
       j_textUnaffixed = (if truthy_str (t_textUnaffixed t) then t_textUnaffixed t else None),
       j_pos = (if truthy_str (t_pos t) then t_pos t else None),
       j_lemma = (if truthy_str (t_lemma t) then t_lemma t else None),
       j_freq = t_freq t,
       j_charTypes = t_charTypes t,
       j_syllables = t_syllables t,
       j_syllableIndices = t_syllableIndices t,
       j_syllableStartEnd = t_syllableStartEnd t,
       j_senses = t_senses t,
       j_sanskrit = (if truthy_bool (t_sanskrit t) then t_sanskrit t else None),
       j_affix = (if truthy_bool (t_affix t) then t_affix t else None),
       j_affixHost = (if truthy_bool (t_affixHost t) then t_affixHost t else None),
       j_affixation = t_affixation t \<rparr>"

text \<open>\<open>fromJSON\<close>: \<open>new Token(json)\<close>, that is \<open>Object.assign\<close> of the keys that are present
  onto a default token.\<close>

definition fromJSON :: "TokenJSON \<Rightarrow> Token" where
  "fromJSON json =
     \<lparr> t_text = (case j_text json of None \<Rightarrow> [] | Some v \<Rightarrow> v),
       t_textCleaned = j_textCleaned json,
       t_textUnaffixed = j_textUnaffixed json,
       t_pos = j_pos json,
       t_lemma = j_lemma json,
       t_freq = j_freq json,
       t_start = (case j_start json of None \<Rightarrow> 0 | Some v \<Rightarrow> v),
       t_length = (case j_length json of None \<Rightarrow> 0 | Some v \<Rightarrow> v),
       t_charTypes = j_charTypes json,
       t_chunkType = (case j_chunkType json of None \<Rightarrow> [] | Some v \<Rightarrow> v),
       t_syllables = j_syllables json,
       t_syllableIndices = j_syllableIndices json,
       t_syllableStartEnd = j_syllableStartEnd json,
       t_senses = j_senses json,
       t_sanskrit = j_sanskrit json,
       t_affix = j_affix json,
       t_affixHost = j_affixHost json,
       t_affixation = j_affixation json,
       t_sense = None,
       t_formFreq = None \<rparr>"

section \<open>Tokenize: the matching engine\<close>

text \<open>\<open>text[i]\<close> as it ends up in \<open>join('')\<close>: the one-unit string, or nothing when the
  index is out of range (\<open>undefined\<close> joins as the empty string).\<close>

definition js_index :: "jsstring \<Rightarrow> nat \<Rightarrow> jsstring" where
  "js_index txt i = (if i < length txt then [txt ! i] else [])"

text \<open>\<open>String.prototype.substring\<close>, \<open>includes\<close> and \<open>endsWith\<close>.\<close>

definition substring :: "jsstring \<Rightarrow> nat \<Rightarrow> nat \<Rightarrow> jsstring" where
  "substring txt a b = take (max a b - min a b) (drop (min a b) txt)"

fun js_includes :: "jsstring \<Rightarrow> jsstring \<Rightarrow> bool" where
  "js_includes [] sub = (sub = [])"
| "js_includes (x # xs) sub = (take (length sub) (x # xs) = sub \<or> js_includes xs sub)"

definition endsWith :: "jsstring \<Rightarrow> jsstring \<Rightarrow> bool" where
  "endsWith txt suffix =
     (length suffix \<le> length txt \<and> drop (length txt - length suffix) txt = suffix)"

text \<open>The array \<open>[marker, start, length]\<close> that a syllable slot holds, as numbers.\<close>

definition chunk_array :: "chunk \<Rightarrow> nat list" where
  "chunk_array c = [chunk_marker_value (fst c), fst (snd c), snd (snd c)]"

text \<open>\<open>curSyl.map(i => this.preProcessed.text[i]).join('')\<close>, the string handed to
  \<open>trie.walk\<close>.\<close>

definition syl_string :: "ChunkFramework \<Rightarrow> chunk \<Rightarrow> jsstring" where
  "syl_string cf curSyl = concat (map (js_index (cf_text cf)) (chunk_array curSyl))"

text \<open>\<open>CHUNK_VALUES\<close> of \<open>utils/constants.ts\<close>, keyed by the marker's number.\<close>

definition CHUNK_VALUES :: "nat \<Rightarrow> jsstring option" where
  "CHUNK_VALUES k =
     (if k = 100 then Some (js ''TEXT'')
      else if k = 101 then Some (js ''PUNCT'')
      else if k = 102 then Some (js ''NON_PUNCT'')
      else if k = 103 then Some (js ''BO'')
      else if k = 104 then Some (js ''NON_BO'')
      else if k = 105 then Some (js ''OTHER'')
      else None)"

definition hasSanskritChar :: "CharMarkers list \<Rightarrow> bool" where
  "hasSanskritChar charTypes =
     list_ex (\<lambda>ct. ct = M_SKRT_VOW \<or> ct = M_SKRT_CONS \<or> ct = M_SKRT_SUB_CONS) charTypes"

definition hasSanskritSyllable :: "jsstring \<Rightarrow> bool" where
  "hasSanskritSyllable word =
     (js_includes word [0x0F71, 0x0F72] \<or> js_includes word [0x0F71, 0x0F74]
      \<or> js_includes word [0x0FB2, 0x0F80])"

definition isSanskrit :: "CharMarkers list \<Rightarrow> jsstring \<Rightarrow> bool" where
  "isSanskrit charTypes word = (hasSanskritChar charTypes \<or> hasSanskritSyllable word)"

text \<open>\<open>Object.assign(token, data)\<close> for node data: the keys present in \<open>data\<close> overwrite
  the token's.\<close>

definition assign_data :: "Token \<Rightarrow> TrieNodeData \<Rightarrow> Token" where
  "assign_data token dat =
     token\<lparr> t_senses := (case d_senses dat of None \<Rightarrow> t_senses token | Some v \<Rightarrow> Some v),
            t_formFreq := (case d_formFreq dat of None \<Rightarrow> t_formFreq token | Some v \<Rightarrow> Some v),
            t_affixation :=
              (case d_affixation dat of None \<Rightarrow> t_affixation token | Some v \<Rightarrow> Some v),
            t_sanskrit := (case d_sanskrit dat of None \<Rightarrow> t_sanskrit token | Some v \<Rightarrow> Some v) \<rparr>"

text \<open>\<open>createToken\<close>. \<open>syls[0] !== null\<close> also holds when \<open>syls\<close> is empty.\<close>

definition createToken ::
  "ChunkFramework \<Rightarrow> ChunkMarkers \<Rightarrow> nat \<Rightarrow> nat \<Rightarrow> chunk option list \<Rightarrow> (nat \<times> nat) list
    \<Rightarrow> TrieNodeData \<Rightarrow> Token" where
  "createToken cf ttype start len syls sylStartEnd dat =
     (let token0 = default_Token
            \<lparr> t_text := substring (cf_text cf) start (start + len),
              t_chunkType := (case CHUNK_VALUES (chunk_marker_value ttype) of
                                None \<Rightarrow> js ''TEXT'' | Some v \<Rightarrow> v),
              t_start := start,
              t_length := len \<rparr>;
          token1 =
            (if (case syls of [] \<Rightarrow> True | s0 # _ \<Rightarrow> s0 \<noteq> None)
             then token0
               \<lparr> t_syllableIndices :=
                   Some (map (\<lambda>syl. map (\<lambda>s. int s - int start) (chunk_array (the syl)))
                             (filter (\<lambda>syl. syl \<noteq> None) syls)),
                 t_syllableStartEnd :=
                   Some (map (\<lambda>se. (int (fst se) - int start, int (snd se) - int start))
                             sylStartEnd) \<rparr>
             else token0);
          charTypes = map (\<lambda>i. cf_getCharType cf (start + i)) [0..<len];
          token2 = assign_data (token1\<lparr> t_charTypes := Some charTypes \<rparr>) dat
      in token2\<lparr> t_sanskrit := Some (isSanskrit charTypes (t_text token2)) \<rparr>)"

text \<open>The block \<open>if (ttype) { ... }\<close> of \<open>chunksToToken\<close>, which writes into \<open>data\<close>.\<close>

definition stamp_ttype :: "jsstring option \<Rightarrow> TrieNodeData \<Rightarrow> TrieNodeData" where
  "stamp_ttype ttype dat =
     (if truthy_str ttype
      then (case d_senses dat of
              None \<Rightarrow> dat\<lparr> d_senses := Some [\<lparr> s_pos = ttype, s_freq = None, s_lemma = None,
                                                s_sense = None, s_affixed = None, s_other = [] \<rparr>] \<rparr>
            | Some ms \<Rightarrow>
                dat\<lparr> d_senses :=
                       Some (map (\<lambda>m. if \<not> truthy_str (s_pos m) then m\<lparr> s_pos := ttype \<rparr> else m)
                                 ms) \<rparr>)
      else dat)"

text \<open>\<open>chunks[i]\<close>, \<open>None\<close> for \<open>undefined\<close>.\<close>

definition chunk_at :: "ChunkFramework \<Rightarrow> nat \<Rightarrow> chunk_entry option" where
  "chunk_at cf i = (if i < length (chunks cf) then Some (chunks cf ! i) else None)"

text \<open>
  \<open>chunksToToken\<close>, returning the token and \<open>data\<close> as the function leaves it. Reading a
  property of \<open>chunks[i]\<close> for an index out of range throws a TypeError; \<open>x?.[1] ?? 0\<close> is 0
  when the syllable slot is null.
\<close>

definition chunksToToken ::
  "ChunkFramework \<Rightarrow> nat list \<Rightarrow> TrieNodeData \<Rightarrow> jsstring option
    \<Rightarrow> error + (Token \<times> TrieNodeData)" where
  "chunksToToken cf syls dat ttype =
     (if syls = [] then Inl EmptySyls
      else if length syls = 1 then
        (case chunk_at cf (hd syls) of
           None \<Rightarrow> Inl TypeError
         | Some chunkData \<Rightarrow>
             (let tokenSyls = [fst chunkData];
                  tokenType = fst (snd chunkData);
                  tokenStart = (case fst chunkData of None \<Rightarrow> 0 | Some c \<Rightarrow> fst (snd c));
                  tokenLength = (case fst chunkData of None \<Rightarrow> 0 | Some c \<Rightarrow> snd (snd c));
                  sylStartEnd = [(tokenStart, tokenStart + tokenLength)];
                  dat' = stamp_ttype ttype dat
              in Inr (createToken cf tokenType tokenStart tokenLength tokenSyls sylStartEnd dat',
                      dat')))
      else if list_ex (\<lambda>idx. chunk_at cf idx = None) syls then Inl TypeError
      else
        (let tokenSyls = map (\<lambda>idx. fst (chunks cf ! idx)) syls;
             tokenType = fst (snd (chunks cf ! last syls));
             firstChunk = chunks cf ! hd syls;
             tokenStart = (case fst firstChunk of None \<Rightarrow> 0 | Some c \<Rightarrow> fst (snd c));
             present = filter (\<lambda>c. c \<noteq> None) tokenSyls;
             tokenLength = sum_list (map (\<lambda>c. snd (snd (the c))) present);
             sylStartEnd =
               map (\<lambda>c. (fst (snd (the c)), fst (snd (the c)) + snd (snd (the c)))) present;
             dat' = stamp_ttype ttype dat
         in Inr (createToken cf tokenType tokenStart tokenLength tokenSyls sylStartEnd dat',
                 dat')))"

text \<open>
  \<open>matchData\<close> maps a chunk index to the data object of the node matched there. The
  model stores the object together with the path of its node, so that what
  \<open>chunksToToken\<close> writes into the object reaches the trie (\<open>write_data\<close>).
\<close>

type_synonym match_data = "(nat \<times> jsstring list \<times> TrieNodeData) list"

definition md_set :: "match_data \<Rightarrow> nat \<Rightarrow> jsstring list \<times> TrieNodeData \<Rightarrow> match_data" where
  "md_set md k v = filter (\<lambda>e. fst e \<noteq> k) md @ [(k, v)]"

definition write_data :: "BasicTrie \<Rightarrow> jsstring list \<Rightarrow> TrieNodeData \<Rightarrow> BasicTrie" where
  "write_data trie path dat =
     trie\<lparr> head := modify_at (\<lambda>n. TrieNode (label n) (children n) (leaf n) dat) path
                      (head trie) \<rparr>"

text \<open>\<open>(!data.senses || data.senses.every(m => !m.pos)) ? 'NO_POS' : undefined\<close>.\<close>

definition ttype_for :: "TrieNodeData \<Rightarrow> jsstring option" where
  "ttype_for dat =
     (case d_senses dat of
        None \<Rightarrow> Some (js ''NO_POS'')
      | Some ms \<Rightarrow>
          if list_all (\<lambda>m. \<not> truthy_str (s_pos m)) ms then Some (js ''NO_POS'') else None)"

text \<open>
  \<open>addFoundWordOrNonWord\<close>, returning the token array, the trie and the number the
  function returns. \<open>cIdx\<close> is an integer: the last branch subtracts from it, and
  \<open>chunks[cIdx][0]\<close> throws a TypeError for a negative \<open>cIdx\<close>.
\<close>

definition addFoundWordOrNonWord ::
  "ChunkFramework \<Rightarrow> BasicTrie \<Rightarrow> int \<Rightarrow> match_data \<Rightarrow> nat list \<Rightarrow> Token list \<Rightarrow> bool
    \<Rightarrow> error + (Token list \<times> BasicTrie \<times> int)" where
  "addFoundWordOrNonWord cf trie cIdx matchData syls tokens hasDecremented =
     (case (if 0 \<le> cIdx then map_of matchData (nat cIdx) else None) of
        Some (path, dat) \<Rightarrow>
          (case chunksToToken cf syls dat (ttype_for dat) of
             Inl e \<Rightarrow> Inl e
           | Inr (tok, dat') \<Rightarrow> Inr (tokens @ [tok], write_data trie path dat', cIdx))
      | None \<Rightarrow>
          if matchData \<noteq> [] then
            (let nonMaxIdx = foldr max (map fst matchData) 0;
                 nonMaxSyls = filter (\<lambda>syl. syl \<le> nonMaxIdx) syls
             in case map_of matchData nonMaxIdx of
                  None \<Rightarrow> Inl TypeError
                | Some (path, dat) \<Rightarrow>
                    (case chunksToToken cf nonMaxSyls dat (ttype_for dat) of
                       Inl e \<Rightarrow> Inl e
                     | Inr (tok, dat') \<Rightarrow>
                         Inr (tokens @ [tok], write_data trie path dat', int nonMaxIdx)))
          else
            (case syls of
               [] \<Rightarrow> Inl TypeError
             | s0 # _ \<Rightarrow>
                 (case chunksToToken cf [s0] empty_data (Some (js ''NO_POS'')) of
                    Inl e \<Rightarrow> Inl e
                  | Inr (tok, _) \<Rightarrow>
                      (let c1 = (if 1 < length syls
                                 then cIdx - (int (length (tl syls)) - 1) else cIdx)
                       in if \<not> hasDecremented \<and> c1 < 0 then Inl TypeError
                          else
                            Inr (tokens @ [tok], trie,
                                 if hasDecremented
                                    \<or> (c1 < int (length (chunks cf))
                                        \<and> fst (chunks cf ! nat c1) = None)
                                    \<or> 1 < length syls
                                 then c1 - 1 else c1)))))"

text \<open>
  The block \<open>if (foundMaxMatch) { ... }\<close> at the end of the inner loop body: commit the
  last entry of \<open>maxMatch\<close>. The result of an attempt is the token array, the new
  \<open>cIdx\<close> and the trie.
\<close>

definition commit_max_match ::
  "ChunkFramework \<Rightarrow> BasicTrie \<Rightarrow> nat \<Rightarrow> Token list \<Rightarrow> nat list list \<Rightarrow> match_data
    \<Rightarrow> error + (Token list \<times> nat \<times> BasicTrie)" where
  "commit_max_match cf trie cIdx tokens maxMatch matchData =
     (case addFoundWordOrNonWord cf trie (int cIdx + int (length (last maxMatch)) - 1)
             matchData (last maxMatch) tokens False of
        Inl e \<Rightarrow> Inl e
      | Inr (tokens', trie', _) \<Rightarrow> Inr (tokens', cIdx + length (last maxMatch), trie'))"

text \<open>
  The branches \<open>CAN'T CONTINUE WALKING\<close> and \<open>NON-SYLLABLE CHUNK\<close> of the inner loop
  hold the same statements; \<open>stop_walking\<close> is that text. The value returned by
  \<open>addFoundWordOrNonWord\<close> is dropped, as in the source.
\<close>

definition stop_walking ::
  "ChunkFramework \<Rightarrow> BasicTrie \<Rightarrow> nat \<Rightarrow> Token list \<Rightarrow> nat \<Rightarrow> nat list \<Rightarrow> nat list list
    \<Rightarrow> match_data \<Rightarrow> error + (Token list \<times> nat \<times> BasicTrie)" where
  "stop_walking cf trie cIdx tokens walker syls maxMatch matchData =
     (if maxMatch \<noteq> [] then commit_max_match cf trie cIdx tokens maxMatch matchData
      else if syls \<noteq> [] then
        (case addFoundWordOrNonWord cf trie (int walker) matchData syls tokens False of
           Inl e \<Rightarrow> Inl e
         | Inr (tokens', trie', _) \<Rightarrow>
             Inr (tokens', if length syls = 1 then cIdx + 1 else cIdx, trie'))
      else
        (case chunksToToken cf [cIdx] empty_data None of
           Inl e \<Rightarrow> Inl e
         | Inr (tok, _) \<Rightarrow> Inr (tokens @ [tok], cIdx + 1, trie)))"

text \<open>
  The inner \<open>while (true)\<close> loop, one call per value of \<open>walker\<close>.
  \<open>chunks[walker]?.[0]\<close> is falsy when \<open>walker\<close> is out of range or the slot is null.
\<close>

function walk_loop ::
  "ChunkFramework \<Rightarrow> BasicTrie \<Rightarrow> nat \<Rightarrow> Token list \<Rightarrow> nat \<Rightarrow> nat list \<Rightarrow> nat list list
    \<Rightarrow> match_data \<Rightarrow> node_ref option \<Rightarrow> error + (Token list \<times> nat \<times> BasicTrie)" where
  "walk_loop cf trie cIdx tokens walker syls maxMatch matchData currentNode =
     (case (if walker < length (chunks cf) then fst (chunks cf ! walker) else None) of
        Some curSyl \<Rightarrow>
          (case walk trie (syl_string cf curSyl) currentNode of
             Some node \<Rightarrow>
               if isMatch (snd node) then
                 (if walker + 1 = length (chunks cf)
                  then commit_max_match cf trie cIdx tokens (maxMatch @ [syls @ [walker]])
                         (md_set matchData walker (fst node, data (snd node)))
                  else walk_loop cf trie cIdx tokens (walker + 1) (syls @ [walker])
                         (maxMatch @ [syls @ [walker]])
                         (md_set matchData walker (fst node, data (snd node))) (Some node))
               else if walker + 1 = length (chunks cf) then
                 (if maxMatch \<noteq> [] then commit_max_match cf trie cIdx tokens maxMatch matchData
                  else
                    (case addFoundWordOrNonWord cf trie (int walker) matchData
                            (syls @ [walker]) tokens False of
                       Inl e \<Rightarrow> Inl e
                     | Inr (tokens', trie', _) \<Rightarrow>
                         Inr (tokens', cIdx + length (syls @ [walker]), trie')))
               else walk_loop cf trie cIdx tokens (walker + 1) (syls @ [walker]) maxMatch
                      matchData (Some node)
           | None \<Rightarrow> stop_walking cf trie cIdx tokens walker syls maxMatch matchData)
      | None \<Rightarrow> stop_walking cf trie cIdx tokens walker syls maxMatch matchData)"
  by pat_completeness auto
termination
  by (relation "measure (\<lambda>(cf, trie, cIdx, tokens, walker, rest). length (chunks cf) - walker)")
     (auto split: if_splits)

text \<open>
  The outer loop \<open>while (cIdx < chunks.length)\<close>. Nothing in its body bounds the number
  of iterations, so the model counts them down: \<open>None\<close> means that the loop is still
  running after \<open>fuel\<close> iterations.
\<close>

fun tokenize_loop ::
  "nat \<Rightarrow> ChunkFramework \<Rightarrow> BasicTrie \<Rightarrow> nat \<Rightarrow> Token list
    \<Rightarrow> (error + (Token list \<times> BasicTrie)) option" where
  "tokenize_loop fuel cf trie cIdx tokens =
     (if cIdx < length (chunks cf) then
        (case fuel of
           0 \<Rightarrow> None
         | Suc fuel' \<Rightarrow>
             (case walk_loop cf trie cIdx tokens cIdx [] [] [] None of
                Inl e \<Rightarrow> Some (Inl e)
              | Inr (tokens', cIdx', trie') \<Rightarrow> tokenize_loop fuel' cf trie' cIdx' tokens'))
      else Some (Inr (tokens, trie)))"

text \<open>\<open>Tokenize.tokenize\<close> for a tokenizer holding \<open>trie\<close>.\<close>

definition tokenize ::
  "nat \<Rightarrow> BasicTrie \<Rightarrow> ChunkFramework \<Rightarrow> (error + (Token list \<times> BasicTrie)) option" where
  "tokenize fuel trie preProcessed = tokenize_loop fuel preProcessed trie 0 []"

section \<open>WordTokenizer\<close>

record Config =
  profile :: jsstring
  dialectPackPath :: jsstring
  dictionary :: "(jsstring \<times> jsstring list) list"
  adjustments :: "(jsstring \<times> jsstring list) list"

text \<open>\<open>new Config()\<close> with every argument left out.\<close>

definition default_Config :: Config where
  "default_Config =
     \<lparr> profile = js ''general'', dialectPackPath = js ''./resources'', dictionary = [],
       adjustments = [] \<rparr>"

text \<open>\<open>getPartLemmas\<close>: the literal table, in source order. (Keys inherited from
  \<open>Object.prototype\<close> are not part of the table.)\<close>

definition getPartLemmas :: "(jsstring \<times> jsstring) list" where
  "getPartLemmas =
     [([0x0F60, 0x0F72], [0x0F42, 0x0FB1, 0x0F72]),
      ([0x0F66], [0x0F42, 0x0FB1, 0x0F72, 0x0F66]),
      ([0x0F60, 0x0F44], [0x0F61, 0x0F44]),
      ([0x0F42], [0x0F60, 0x0F55, 0x0FB2, 0x0F44]),
      ([0x0F42, 0x0F72], [0x0F42, 0x0FB1, 0x0F72]),
      ([0x0F42, 0x0F72, 0x0F66], [0x0F42, 0x0FB1, 0x0F72, 0x0F66]),
      ([0x0F40, 0x0FB1, 0x0F72], [0x0F42, 0x0FB1, 0x0F72]),
      ([0x0F40, 0x0FB1, 0x0F72, 0x0F66], [0x0F42, 0x0FB1, 0x0F72, 0x0F66]),
      ([0x0F63], [0x0F63]),
      ([0x0F62], [0x0F62]),
      ([0x0F62, 0x0F74], [0x0F62, 0x0F74]),
      ([0x0F53], [0x0F53]),
      ([0x0F53, 0x0F66], [0x0F53, 0x0F66]),
      ([0x0F60, 0x0F58], [0x0F60, 0x0F58]),
      ([0x0F61, 0x0F44], [0x0F61, 0x0F44]),
      ([0x0F58], [0x0F58])]"

text \<open>
  The tokenizer object: its configuration, the trie of its private \<open>Tokenize\<close> engine,
  the ignore set and the particle lemmas. The constructor gives the engine a new
  \<open>BasicTrie\<close>; the configuration is stored and not read. The ignore set is used for
  membership tests only, so the order in which \<open>remdups\<close> keeps its elements is
  immaterial.
\<close>

record WordTokenizer =
  wt_config :: Config
  wt_trie :: BasicTrie
  wt_ignoreChars :: "jsstring list"
  wt_partLemmas :: "(jsstring \<times> jsstring) list"

definition new_WordTokenizer :: "Config option \<Rightarrow> jsstring list option \<Rightarrow> WordTokenizer" where
  "new_WordTokenizer config ignoreChars =
     \<lparr> wt_config = (case config of None \<Rightarrow> default_Config | Some c \<Rightarrow> c),
       wt_trie = new_BasicTrie,
       wt_ignoreChars = (case ignoreChars of None \<Rightarrow> [] | Some cs \<Rightarrow> remdups cs),
       wt_partLemmas = getPartLemmas \<rparr>"

text \<open>The affix list of \<open>hasAffix\<close>, in source order.\<close>

definition affixes :: "jsstring list" where
  "affixes =
     [[0x0F60, 0x0F72], [0x0F66], [0x0F60, 0x0F44], [0x0F42], [0x0F42, 0x0F72],
      [0x0F42, 0x0F72, 0x0F66], [0x0F40, 0x0FB1, 0x0F72], [0x0F40, 0x0FB1, 0x0F72, 0x0F66],
      [0x0F63], [0x0F62], [0x0F62, 0x0F74], [0x0F53], [0x0F53, 0x0F66], [0x0F60, 0x0F58],
      [0x0F61, 0x0F44], [0x0F58]]"

definition hasAffix :: "Token \<Rightarrow> bool" where
  "hasAffix token =
     (if t_text token = [] \<or> t_chunkType token \<noteq> js ''TEXT'' then False
      else list_ex (\<lambda>affix. endsWith (t_text token) (affix @ [0x0F0B])
                              \<or> endsWith (t_text token) affix) affixes)"

text \<open>\<open>splitTokenAffix\<close> returns \<open>[token]\<close> on both of its paths.\<close>

definition splitTokenAffix :: "Token \<Rightarrow> Token list" where
  "splitTokenAffix token = (if \<not> hasAffix token then [token] else [token])"

definition splitAffixed :: "Token list \<Rightarrow> Token list" where
  "splitAffixed tokens =
     concat (map (\<lambda>token. if hasAffix token then splitTokenAffix token else [token]) tokens)"

text \<open>
  The getter \<open>syls\<close>: the characters at the syllable indices (\<open>undefined\<close> where an
  index is out of range, which joins as nothing), or the empty string when there are
  no indices or no text.
\<close>

definition text_at :: "jsstring \<Rightarrow> int \<Rightarrow> jsstring" where
  "text_at txt i = (if 0 \<le> i \<and> nat i < length txt then [txt ! nat i] else [])"

definition token_syls :: "Token \<Rightarrow> jsstring list list option" where
  "token_syls token =
     (case t_syllableIndices token of
        None \<Rightarrow> None
      | Some idx \<Rightarrow>
          if t_text token = [] then None
          else Some (map (\<lambda>syl. map (text_at (t_text token)) syl) idx))"

text \<open>
  The lemma computed in the loop of \<open>getDefaultLemma\<close>. The lookup \<open>partLemmas[part]\<close>
  is modelled on the own keys of the table; a part that names a property inherited
  from \<open>Object.prototype\<close> (such as \<open>constructor\<close>) is outside the model.
\<close>

definition default_lemma :: "(jsstring \<times> jsstring) list \<Rightarrow> Token \<Rightarrow> jsstring" where
  "default_lemma partLemmas token =
     (if truthy_bool (t_affix token) \<and> \<not> truthy_bool (t_affixHost token) then
        (let part = (case token_syls token of
                       None \<Rightarrow> t_text token
                     | Some ss \<Rightarrow> concat (map concat ss))
         in (case map_of partLemmas part of
               None \<Rightarrow> part
             | Some l \<Rightarrow> if l = [] then part else l) @ TSEK)
      else if \<not> truthy_bool (t_affix token) \<and> truthy_bool (t_affixHost token) then
        the (t_textUnaffixed token)
          @ (case t_affixation token of None \<Rightarrow> [] | Some a \<Rightarrow> if af_aa a then AA else [])
          @ TSEK
      else
        (if endsWith (the (t_textUnaffixed token)) TSEK then the (t_textUnaffixed token)
         else the (t_textUnaffixed token) @ TSEK))"

text \<open>\<open>getDefaultLemma\<close>, per token and over the array.\<close>

definition getDefaultLemma_token :: "(jsstring \<times> jsstring) list \<Rightarrow> Token \<Rightarrow> Token" where
  "getDefaultLemma_token partLemmas token =
     (if \<not> truthy_str (t_textUnaffixed token) then token
      else
        (let lem = default_lemma partLemmas token;
             senses1 =
               map_option
                 (map (\<lambda>sense. if \<not> truthy_str (s_lemma sense) \<and> truthy_str (s_pos sense)
                                    \<and> s_pos sense \<noteq> Some (js ''NON_WORD'')
                                 then sense\<lparr> s_lemma := Some lem \<rparr> else sense))
                 (t_senses token)
         in token\<lparr> t_senses :=
                     (case senses1 of
                        None \<Rightarrow> Some [\<lparr> s_pos = None, s_freq = None, s_lemma = Some lem,
                                        s_sense = None, s_affixed = None, s_other = [] \<rparr>]
                      | Some [] \<Rightarrow> Some [\<lparr> s_pos = None, s_freq = None, s_lemma = Some lem,
                                           s_sense = None, s_affixed = None, s_other = [] \<rparr>]
                      | Some ss \<Rightarrow> Some ss) \<rparr>))"

definition getDefaultLemma :: "(jsstring \<times> jsstring) list \<Rightarrow> Token list \<Rightarrow> Token list" where
  "getDefaultLemma partLemmas tokens = map (getDefaultLemma_token partLemmas) tokens"

text \<open>\<open>Object.keys(sense).length\<close>.\<close>

definition sense_keys :: "SenseInfo \<Rightarrow> nat" where
  "sense_keys m =
     (if s_pos m = None then 0 else 1) + (if s_freq m = None then 0 else 1)
     + (if s_lemma m = None then 0 else 1) + (if s_sense m = None then 0 else 1)
     + (if s_affixed m = None then 0 else 1) + length (s_other m)"

text \<open>
  \<open>chooseBestSense\<close>: \<open>senses.sort((a, b) => keys(b) - keys(a))[0]\<close>. The sort is
  stable, as is \<open>sort_key\<close>; element 0 of an empty array is \<open>undefined\<close>.
\<close>

definition chooseBestSense :: "SenseInfo list \<Rightarrow> SenseInfo option" where
  "chooseBestSense senses =
     (case sort_key (\<lambda>m. - int (sense_keys m)) senses of [] \<Rightarrow> None | m # _ \<Rightarrow> Some m)"

text \<open>\<open>applyChosenSense\<close>: each of pos, lemma, freq, sense that is a key of the sense is
  written to the token.\<close>

definition applyChosenSense :: "Token \<Rightarrow> SenseInfo \<Rightarrow> Token" where
  "applyChosenSense token sense =
     token\<lparr> t_pos := (case s_pos sense of None \<Rightarrow> t_pos token | Some v \<Rightarrow> Some v),
            t_lemma := (case s_lemma sense of None \<Rightarrow> t_lemma token | Some v \<Rightarrow> Some v),
            t_freq := (case s_freq sense of None \<Rightarrow> t_freq token | Some v \<Rightarrow> Some v),
            t_sense := (case s_sense sense of None \<Rightarrow> t_sense token | Some v \<Rightarrow> Some v) \<rparr>"

text \<open>The three groups built by the loop of \<open>chooseDefaultEntry\<close>.\<close>

definition affixed_group :: "SenseInfo list \<Rightarrow> SenseInfo list" where
  "affixed_group senses = filter (\<lambda>m. s_affixed m = Some True) senses"

definition nonAffixed_group :: "SenseInfo list \<Rightarrow> SenseInfo list" where
  "nonAffixed_group senses = filter (\<lambda>m. s_affixed m = Some False) senses"

definition noAffixInfo_group :: "SenseInfo list \<Rightarrow> SenseInfo list" where
  "noAffixInfo_group senses = filter (\<lambda>m. s_affixed m = None) senses"

definition chooseDefaultEntry_token :: "Token \<Rightarrow> Token" where
  "chooseDefaultEntry_token token =
     (case t_senses token of
        None \<Rightarrow> token
      | Some senses \<Rightarrow>
          if senses = [] then token
          else
            (let chosenSense =
                   (if nonAffixed_group senses \<noteq> [] then chooseBestSense (nonAffixed_group senses)
                    else if noAffixInfo_group senses \<noteq> []
                      then chooseBestSense (noAffixInfo_group senses)
                    else if affixed_group senses \<noteq> [] then chooseBestSense (affixed_group senses)
                    else None)
             in case chosenSense of
                  None \<Rightarrow> token
                | Some m \<Rightarrow> applyChosenSense token m))"

definition chooseDefaultEntry :: "Token list \<Rightarrow> Token list" where
  "chooseDefaultEntry tokens = map chooseDefaultEntry_token tokens"

text \<open>
  \<open>WordTokenizer.tokenize\<close>. The result carries the tokenizer, whose engine keeps its
  trie between calls; \<open>fuel\<close> bounds the outer loop of the engine.
\<close>

definition wt_tokenize ::
  "nat \<Rightarrow> WordTokenizer \<Rightarrow> jsstring \<Rightarrow> bool \<Rightarrow> bool
    \<Rightarrow> (error + (Token list \<times> WordTokenizer)) option" where
  "wt_tokenize fuel wt txt splitAffixes spacesAsPunct0 =
     (let preprocessed =
            serveSylsToTrie (new_ChunkFramework txt (wt_ignoreChars wt) spacesAsPunct0)
      in case tokenize fuel (wt_trie wt) preprocessed of
           None \<Rightarrow> None
         | Some (Inl e) \<Rightarrow> Some (Inl e)
         | Some (Inr (tokens, trie')) \<Rightarrow>
             (let tokens1 = (if splitAffixes then splitAffixed tokens else tokens);
                  tokens2 = getDefaultLemma (wt_partLemmas wt) tokens1;
                  tokens3 = chooseDefaultEntry tokens2
              in Some (Inr (tokens3, wt\<lparr> wt_trie := trie' \<rparr>))))"

section \<open>Example inputs\<close>

text \<open>The greeting of scenario S1, U+0F56 U+0F40 U+0FB2 U+0F0B U+0F64 U+0F72 U+0F66
  U+0F0D.\<close>

definition greeting :: jsstring where
  "greeting = [0x0F56, 0x0F40, 0x0FB2, 0x0F0B, 0x0F64, 0x0F72, 0x0F66, 0x0F0D]"

text \<open>A trie holding the one two-syllable word \<open>ab\<close>, whose first node is not a word
  end.\<close>

definition two_syllable_trie :: BasicTrie where
  "two_syllable_trie = add new_BasicTrie (WordArray [[97], [98]]) None"

text \<open>Three syllables separated by tsek, U+0F40 U+0F0B U+0F41 U+0F0B U+0F42, and a trie
  holding one three-syllable word whose first two labels are the strings the engine
  walks for the first two syllables of that text.\<close>

definition three_syllables :: jsstring where
  "three_syllables = [0x0F40, 0x0F0B, 0x0F41, 0x0F0B, 0x0F42]"

definition prefix_trie :: BasicTrie where
  "prefix_trie =
     add new_BasicTrie (WordArray [[0x0F40, 0x0F41], [0x0F41, 0x0F41], [0x0F42, 0x0F42]]) None"

text \<open>A run with leading, inner and trailing separators: tsek, U+0F40, tsek, tsek,
  U+0F41.\<close>

definition separated_run :: BoString where
  "separated_run = new_BoString [0x0F0B, 0x0F40, 0x0F0B, 0x0F0B, 0x0F41] []"

text \<open>The token of the repository's JSON test: text, pos, start, length, chunkType and one
  sense.\<close>

definition test_token :: Token where
  "test_token = default_Token
     \<lparr> t_text := [0x0F56, 0x0F40, 0x0FB2, 0x0F0B, 0x0F64, 0x0F72, 0x0F66],
       t_pos := Some (js ''NOUN''), t_start := 0, t_length := 6, t_chunkType := js ''TEXT'',
       t_senses := Some [\<lparr> s_pos = Some (js ''NOUN''), s_freq = Some 100, s_lemma = None,
                          s_sense = None, s_affixed = None, s_other = [] \<rparr>] \<rparr>"

text \<open>The token that \<open>WordTokenizer.tokenize\<close> returns for the text U+0F40 U+0F66, which
  ends in the affix U+0F66.\<close>

definition affixed_token :: Token where
  "affixed_token = default_Token
     \<lparr> t_text := [0x0F40, 0x0F66], t_start := 0, t_length := 2,
       t_charTypes := Some [M_OTHER, M_OTHER], t_chunkType := js ''TEXT'',
       t_syllableIndices := Some [[100, 0, 2]], t_syllableStartEnd := Some [(0, 2)],
       t_sanskrit := Some False \<rparr>"

text \<open>Five senses with different numbers of keys, and two tokens: one without senses,
  one with a lemma of its own and these senses.\<close>

definition ranked_senses :: "SenseInfo list" where
  "ranked_senses =
     [\<lparr> s_pos = Some (js ''A''), s_freq = None, s_lemma = None, s_sense = None,
        s_affixed = Some True, s_other = [js ''formFreq'', js ''sanskrit''] \<rparr>,
      \<lparr> s_pos = Some (js ''B''), s_freq = None, s_lemma = None, s_sense = None,
        s_affixed = Some False, s_other = [] \<rparr>,
      \<lparr> s_pos = Some (js ''C''), s_freq = None, s_lemma = None, s_sense = None,
        s_affixed = Some False, s_other = [js ''formFreq''] \<rparr>,
      \<lparr> s_pos = Some (js ''D''), s_freq = Some 7, s_lemma = None, s_sense = None,
        s_affixed = Some False, s_other = [] \<rparr>,
      \<lparr> s_pos = Some (js ''E''), s_freq = Some 1, s_lemma = Some (js ''L''),
        s_sense = Some (js ''S''), s_affixed = None, s_other = [] \<rparr>]"

definition ranked_tokens :: "Token list" where
  "ranked_tokens =
     [default_Token\<lparr> t_text := js ''u'', t_chunkType := js ''TEXT'', t_length := 1 \<rparr>,
      default_Token\<lparr> t_text := js ''w'', t_chunkType := js ''TEXT'', t_start := 1,
                     t_length := 1, t_lemma := Some (js ''K''),
                     t_senses := Some ranked_senses \<rparr>]"

text \<open>Views of a result: the token array of a call that returned, and the fields of a
  token that the scenarios speak about.\<close>

definition result_tokens :: "(error + (Token list \<times> BasicTrie)) option \<Rightarrow> Token list option" where
  "result_tokens r = (case r of Some (Inr (tokens, trie)) \<Rightarrow> Some tokens | _ \<Rightarrow> None)"

definition token_view :: "Token \<Rightarrow> jsstring \<times> nat \<times> nat \<times> jsstring" where
  "token_view t = (t_text t, t_start t, t_length t, t_chunkType t)"

definition token_span :: "Token \<Rightarrow> nat \<times> nat" where
  "token_span t = (t_start t, t_length t)"

text \<open>The prepared frames (\<open>serveSylsToTrie\<close> already called) of the greeting, of the
  two-unit text U+0F40 \<open>A\<close>, and of the three syllables.\<close>

definition greeting_frame :: ChunkFramework where
  "greeting_frame = serveSylsToTrie (new_ChunkFramework greeting [] False)"

definition mixed_frame :: ChunkFramework where
  "mixed_frame = serveSylsToTrie (new_ChunkFramework [0x0F40, 0x41] [] False)"

definition three_syllables_frame :: ChunkFramework where
  "three_syllables_frame = serveSylsToTrie (new_ChunkFramework three_syllables [] False)"

text \<open>The token that \<open>chunksToToken([i], {})\<close> builds for entry \<open>i\<close> of a frame.\<close>

definition plain_token :: "ChunkFramework \<Rightarrow> nat \<Rightarrow> Token" where
  "plain_token cf i =
     createToken cf (fst (snd (chunks cf ! i)))
       (case fst (chunks cf ! i) of None \<Rightarrow> 0 | Some c \<Rightarrow> fst (snd c))
       (case fst (chunks cf ! i) of None \<Rightarrow> 0 | Some c \<Rightarrow> snd (snd c))
       [fst (chunks cf ! i)]
       [(case fst (chunks cf ! i) of None \<Rightarrow> 0 | Some c \<Rightarrow> fst (snd c),
         (case fst (chunks cf ! i) of None \<Rightarrow> 0 | Some c \<Rightarrow> fst (snd c))
         + (case fst (chunks cf ! i) of None \<Rightarrow> 0 | Some c \<Rightarrow> snd (snd c)))]
       empty_data"

text \<open>A configuration that carries a dictionary.\<close>

definition dictionary_config :: Config where
  "dictionary_config = default_Config\<lparr> dictionary := [(js ''words'', [js ''ab'', js ''c''])] \<rparr>"

section \<open>Predicates used in the proofs\<close>

text \<open>
  \<open>runs p a rs b\<close>: the list \<open>rs\<close> of \<open>(flag, start, length)\<close> entries cuts the range from
  \<open>a\<close> to \<open>b\<close> into consecutive non-empty pieces, \<open>p\<close> is constantly \<open>flag\<close> on each
  piece, and neighbouring pieces have different flags.
\<close>

fun runs :: "(nat \<Rightarrow> bool) \<Rightarrow> nat \<Rightarrow> (bool \<times> nat \<times> nat) list \<Rightarrow> nat \<Rightarrow> bool" where
  "runs p a [] b = (a = b)"
| "runs p a (r # rs) b =
     (fst (snd r) = a \<and> 0 < snd (snd r) \<and> (\<forall>i\<in>{a..<a + snd (snd r)}. p i = fst r)
      \<and> (case rs of [] \<Rightarrow> True | r' # _ \<Rightarrow> fst r' \<noteq> fst r)
      \<and> runs p (a + snd (snd r)) rs b)"

text \<open>The state of the loop of \<open>chunk\<close> before it reads index \<open>i\<close>.\<close>

definition chunk_inv ::
  "(nat \<Rightarrow> bool) \<Rightarrow> nat \<Rightarrow> nat \<Rightarrow> (bool \<times> nat \<times> nat) list \<times> nat \<times> bool option \<Rightarrow> bool" where
  "chunk_inv p start i st =
     (case st of (res, cs, cm) \<Rightarrow>
        case cm of
          None \<Rightarrow> i = start \<and> res = []
        | Some f \<Rightarrow> start \<le> cs \<and> cs < i \<and> (\<forall>j\<in>{cs..<i}. p j = f)
                \<and> runs p start res cs \<and> (res \<noteq> [] \<longrightarrow> fst (last res) \<noteq> f))"

text \<open>Entry \<open>j\<close> of the array after the merge loop of \<open>syllabify\<close> has handled the indices
  below \<open>k\<close>.\<close>

definition merged_at :: "(bool \<times> nat \<times> nat) list \<Rightarrow> nat \<Rightarrow> nat \<Rightarrow> bool \<times> nat \<times> nat" where
  "merged_at xs k j =
     (if \<not> fst (xs ! j) \<and> Suc j < k \<and> fst (xs ! Suc j)
      then (fst (xs ! j), fst (snd (xs ! j)), snd (snd (xs ! j)) + snd (snd (xs ! Suc j)))
      else xs ! j)"

declare syllabify_merge_step.simps [simp del]
declare tokenize_loop.simps [simp del]
declare walk_loop.simps [simp del]

section \<open>Syllabify\<close>

lemma runs_le: "runs p a xs b \<Longrightarrow> a \<le> b"
proof (induction xs arbitrary: a)
  case Nil
  then show ?case by simp
next
  case (Cons r rs)
  then have "a + snd (snd r) \<le> b" by simp
  then show ?case by simp
qed

lemma runs_snoc:
  "runs p a rs c \<Longrightarrow> (rs \<noteq> [] \<longrightarrow> fst (last rs) \<noteq> f) \<Longrightarrow> 0 < l
   \<Longrightarrow> (\<forall>i\<in>{c..<c + l}. p i = f) \<Longrightarrow> runs p a (rs @ [(f, c, l)]) (c + l)"
proof (induction rs arbitrary: a)
  case Nil
  then show ?case by simp
next
  case (Cons r rs)
  then show ?case by (cases rs) auto
qed

lemma chunk_inv_step:
  assumes "chunk_inv p start i st" "start \<le> i"
  shows "chunk_inv p start (Suc i) (chunk_step p st i)"
proof (cases st)
  case (fields res cs cm)
  show ?thesis
  proof (cases "i = start")
    case True
    with assms fields show ?thesis by (auto simp: chunk_inv_def split: option.splits)
  next
    case False
    with assms fields obtain f where f: "cm = Some f" "start \<le> cs" "cs < i"
      "\<forall>j\<in>{cs..<i}. p j = f" "runs p start res cs" "res \<noteq> [] \<longrightarrow> fst (last res) \<noteq> f"
      by (auto simp: chunk_inv_def split: option.splits)
    show ?thesis
    proof (cases "f = p i")
      case True
      with f fields assms show ?thesis
        by (auto simp: chunk_inv_def less_Suc_eq split: option.splits)
    next
      case False
      have "runs p start (res @ [(f, cs, i - cs)]) (cs + (i - cs))"
        using f by (intro runs_snoc) auto
      with False f fields assms show ?thesis
        by (auto simp: chunk_inv_def split: option.splits)
    qed
  qed
qed

lemma chunk_inv_fold:
  "start \<le> i \<Longrightarrow> chunk_inv p start i (foldl (chunk_step p) ([], start, None) [start..<i])"
proof (induction i)
  case 0
  then show ?case by (simp add: chunk_inv_def)
next
  case (Suc i)
  show ?case
  proof (cases "start = Suc i")
    case True
    then show ?thesis by (simp add: chunk_inv_def)
  next
    case False
    with Suc.prems have le: "start \<le> i" by simp
    with Suc.IH have "chunk_inv p start i (foldl (chunk_step p) ([], start, None) [start..<i])" by simp
    from chunk_inv_step[OF this le] le show ?thesis by simp
  qed
qed

lemma chunk_runs:
  assumes "start \<le> end"
  shows "runs p start (chunk start end p) end"
proof -
  obtain res cs cm where st: "foldl (chunk_step p) ([], start, None) [start..<end] = (res, cs, cm)"
    by (cases "foldl (chunk_step p) ([], start, None) [start..<end]") auto
  from chunk_inv_fold[OF assms, of p] st have inv: "chunk_inv p start end (res, cs, cm)" by simp
  show ?thesis
  proof (cases "end = start")
    case True
    with inv st show ?thesis by (auto simp: chunk_def chunk_inv_def split: option.splits)
  next
    case False
    with inv obtain f where f: "cm = Some f" "start \<le> cs" "cs < end"
      "\<forall>j\<in>{cs..<end}. p j = f" "runs p start res cs" "res \<noteq> [] \<longrightarrow> fst (last res) \<noteq> f"
      by (auto simp: chunk_inv_def split: option.splits)
    have "runs p start (res @ [(f, cs, end - cs)]) (cs + (end - cs))"
      using f by (intro runs_snoc) auto
    with f st show ?thesis by (simp add: chunk_def)
  qed
qed

lemma runs_nth:
  "runs p a xs b \<Longrightarrow> j < length xs \<Longrightarrow>
     a \<le> fst (snd (xs ! j)) \<and> fst (snd (xs ! j)) + snd (snd (xs ! j)) \<le> b
     \<and> 0 < snd (snd (xs ! j))
     \<and> (\<forall>i\<in>{fst (snd (xs ! j))..<fst (snd (xs ! j)) + snd (snd (xs ! j))}. p i = fst (xs ! j))
     \<and> (j = 0 \<longrightarrow> fst (snd (xs ! j)) = a)
     \<and> (length xs = Suc j \<longrightarrow> fst (snd (xs ! j)) + snd (snd (xs ! j)) = b)
     \<and> (Suc j < length xs \<longrightarrow> fst (xs ! Suc j) \<noteq> fst (xs ! j)
           \<and> fst (snd (xs ! Suc j)) = fst (snd (xs ! j)) + snd (snd (xs ! j)))"
proof (induction xs arbitrary: a j)
  case Nil
  then show ?case by simp
next
  case (Cons r rs)
  from Cons.prems have tl: "runs p (a + snd (snd r)) rs b" by simp
  show ?case
  proof (cases j)
    case 0
    from runs_le[OF tl] Cons.prems 0 show ?thesis
      by (cases rs) auto
  next
    case (Suc k)
    with Cons.prems have "k < length rs" by simp
    from Cons.IH[OF tl this] show ?thesis unfolding Suc by simp
  qed
qed

lemma merge_fold:
  "k \<le> length xs \<Longrightarrow>
   length (foldl syllabify_merge_step xs [0..<k]) = length xs \<and>
   (\<forall>j<length xs. foldl syllabify_merge_step xs [0..<k] ! j = merged_at xs k j)"
proof (induction k)
  case 0
  then show ?case by (simp add: merged_at_def)
next
  case (Suc k)
  define ys where "ys = foldl syllabify_merge_step xs [0..<k]"
  from Suc have len: "length ys = length xs"
    and IH: "\<And>j. j < length xs \<Longrightarrow> ys ! j = merged_at xs k j"
    and k: "k < length xs" by (auto simp: ys_def)
  have yk: "ys ! k = xs ! k" using IH[OF k] by (simp add: merged_at_def)
  have yk1: "ys ! (k - 1) = xs ! (k - 1)" if "0 < k"
  proof -
    from that k have "k - 1 < length xs" by simp
    from IH[OF this] that show ?thesis by (simp add: merged_at_def)
  qed
  have step: "foldl syllabify_merge_step xs [0..<Suc k] = syllabify_merge_step ys k"
    by (simp add: ys_def)
  show ?case
  proof (cases "fst (xs ! k) \<and> 0 < k \<and> \<not> fst (xs ! (k - 1))")
    case True
    then have upd: "syllabify_merge_step ys k =
        ys[k - 1 := (fst (xs ! (k - 1)), fst (snd (xs ! (k - 1))),
                     snd (snd (xs ! (k - 1))) + snd (snd (xs ! k)))]"
      using yk yk1 by (simp add: syllabify_merge_step.simps)
    have "syllabify_merge_step ys k ! j = merged_at xs (Suc k) j" if j: "j < length xs" for j
    proof (cases "j = k - 1")
      case eq: True
      with True have "Suc j = k" by simp
      with True eq j len show ?thesis unfolding upd by (simp add: merged_at_def)
    next
      case neq: False
      then have "Suc j \<noteq> k" by auto
      with neq j len IH[OF j] show ?thesis unfolding upd
        by (auto simp: merged_at_def less_Suc_eq)
    qed
    with len show ?thesis unfolding step by (simp add: upd)
  next
    case False
    then have same: "syllabify_merge_step ys k = ys"
      using yk yk1 by (auto simp: syllabify_merge_step.simps)
    have "ys ! j = merged_at xs (Suc k) j" if j: "j < length xs" for j
    proof (cases "Suc j = k")
      case eq: True
      then have "k - 1 = j" "0 < k" by auto
      with False IH[OF j] eq show ?thesis by (auto simp: merged_at_def)
    next
      case neq: False
      with IH[OF j] show ?thesis by (auto simp: merged_at_def less_Suc_eq)
    qed
    with len show ?thesis unfolding step same by simp
  qed
qed


lemma merged_at_fst: "fst (merged_at xs k j) = fst (xs ! j)"
  by (simp add: merged_at_def)

lemma runs_cover:
  "runs p a xs b \<Longrightarrow> a \<le> i \<Longrightarrow> i < b \<Longrightarrow>
     \<exists>j<length xs. fst (snd (xs ! j)) \<le> i \<and> i < fst (snd (xs ! j)) + snd (snd (xs ! j))"
proof (induction xs arbitrary: a)
  case Nil
  then show ?case by simp
next
  case (Cons r rs)
  from Cons.prems have tl: "runs p (a + snd (snd r)) rs b" and st: "fst (snd r) = a" by simp_all
  show ?case
  proof (cases "i < a + snd (snd r)")
    case True
    with Cons.prems st have "fst (snd ((r # rs) ! 0)) \<le> i \<and>
        i < fst (snd ((r # rs) ! 0)) + snd (snd ((r # rs) ! 0))" by simp
    then show ?thesis by blast
  next
    case False
    then have "a + snd (snd r) \<le> i" by simp
    from Cons.IH[OF tl this Cons.prems(3)] obtain j where
      "j < length rs" "fst (snd (rs ! j)) \<le> i \<and> i < fst (snd (rs ! j)) + snd (snd (rs ! j))"
      by blast
    then have "Suc j < length (r # rs) \<and> fst (snd ((r # rs) ! Suc j)) \<le> i \<and>
        i < fst (snd ((r # rs) ! Suc j)) + snd (snd ((r # rs) ! Suc j))" by simp
    then show ?thesis by blast
  qed
qed

lemma syllabify_mem:
  "(m, s, l) \<in> set (syllabify b start end yesValue) \<longleftrightarrow>
     (\<exists>j<length (chunk start end (isTsekOrLongSkrtVowel b)).
        \<not> fst (chunk start end (isTsekOrLongSkrtVowel b) ! j) \<and>
        m = yesValue \<and>
        s = fst (snd (merged_at (chunk start end (isTsekOrLongSkrtVowel b))
                        (length (chunk start end (isTsekOrLongSkrtVowel b))) j)) \<and>
        l = snd (snd (merged_at (chunk start end (isTsekOrLongSkrtVowel b))
                        (length (chunk start end (isTsekOrLongSkrtVowel b))) j)))"
proof -
  define xs where "xs = chunk start end (isTsekOrLongSkrtVowel b)"
  define ys where "ys = foldl syllabify_merge_step xs [0..<length xs]"
  from merge_fold[of "length xs" xs] have len: "length ys = length xs"
    and nth: "\<And>j. j < length xs \<Longrightarrow> ys ! j = merged_at xs (length xs) j"
    by (simp_all add: ys_def)
  have "(m, s, l) \<in> set (syllabify b start end yesValue) \<longleftrightarrow>
        (\<exists>c\<in>set ys. \<not> fst c \<and> m = yesValue \<and> s = fst (snd c) \<and> l = snd (snd c))"
    unfolding syllabify_def Let_def xs_def[symmetric] ys_def[symmetric] by force
  also have "\<dots> \<longleftrightarrow> (\<exists>j<length ys. \<not> fst (ys ! j) \<and> m = yesValue
        \<and> s = fst (snd (ys ! j)) \<and> l = snd (snd (ys ! j)))"
    by (metis in_set_conv_nth)
  also have "\<dots> \<longleftrightarrow> (\<exists>j<length xs. \<not> fst (xs ! j) \<and> m = yesValue
        \<and> s = fst (snd (merged_at xs (length xs) j))
        \<and> l = snd (snd (merged_at xs (length xs) j)))"
    using len nth by (auto simp: merged_at_fst)
  finally show ?thesis unfolding xs_def .
qed


lemma syllabify_span_shape:
  assumes le: "start \<le> end"
    and mem: "(m, s, l) \<in> set (syllabify b start end yesValue)"
  shows "m = yesValue \<and> start \<le> s \<and> s + l \<le> end
     \<and> (\<exists>k. 0 < k \<and> k \<le> l \<and> (k < l \<or> s + l = end)
            \<and> (\<forall>i\<in>{s..<s + k}. \<not> isTsekOrLongSkrtVowel b i)
            \<and> (\<forall>i\<in>{s + k..<s + l}. isTsekOrLongSkrtVowel b i))
     \<and> (s + l = end \<or> \<not> isTsekOrLongSkrtVowel b (s + l))
     \<and> (s = start \<or> isTsekOrLongSkrtVowel b (s - 1))"
proof -
  define p where "p = isTsekOrLongSkrtVowel b"
  define xs where "xs = chunk start end p"
  define n where "n = length xs"
  have runs: "runs p start xs end" unfolding xs_def by (rule chunk_runs[OF le])
  from mem obtain j where j: "j < n" and nf: "\<not> fst (xs ! j)" and m: "m = yesValue"
    and s: "s = fst (snd (merged_at xs n j))" and l: "l = snd (snd (merged_at xs n j))"
    unfolding syllabify_mem xs_def n_def p_def by blast
  define sj where "sj = fst (snd (xs ! j))"
  define lj where "lj = snd (snd (xs ! j))"
  from runs_nth[OF runs, of j] j nf
  have rj: "start \<le> sj" "sj + lj \<le> end" "0 < lj" "\<forall>i\<in>{sj..<sj + lj}. \<not> p i"
    "j = 0 \<longrightarrow> sj = start" "n = Suc j \<longrightarrow> sj + lj = end"
    "Suc j < n \<longrightarrow> fst (xs ! Suc j) \<and> fst (snd (xs ! Suc j)) = sj + lj"
    unfolding sj_def lj_def n_def by auto
  have s_eq: "s = sj" unfolding s sj_def merged_at_def by simp
  have left: "s = start \<or> p (s - 1)"
  proof (cases j)
    case 0
    with rj s_eq show ?thesis by simp
  next
    case (Suc i)
    with j have i: "i < length xs" "Suc i < length xs" by (simp_all add: n_def)
    from runs_nth[OF runs i(1)] i(2) nf Suc
    have "fst (xs ! i)" "sj = fst (snd (xs ! i)) + snd (snd (xs ! i))" "0 < snd (snd (xs ! i))"
      "\<forall>k\<in>{fst (snd (xs ! i))..<fst (snd (xs ! i)) + snd (snd (xs ! i))}. p k = fst (xs ! i)"
      unfolding sj_def by auto
    then have "p (sj - 1)" by auto
    with s_eq show ?thesis by simp
  qed
  show ?thesis
  proof (cases "Suc j < n")
    case True
    define l' where "l' = snd (snd (xs ! Suc j))"
    from True rj have nxt: "fst (xs ! Suc j)" "fst (snd (xs ! Suc j)) = sj + lj" by simp_all
    from True have sj_lt: "Suc j < length xs" by (simp add: n_def)
    from runs_nth[OF runs sj_lt] nxt
    have rn: "sj + lj + l' \<le> end" "0 < l'" "\<forall>i\<in>{sj + lj..<sj + lj + l'}. p i"
      "n = Suc (Suc j) \<longrightarrow> sj + lj + l' = end"
      "Suc (Suc j) < n \<longrightarrow> \<not> fst (xs ! Suc (Suc j)) \<and> fst (snd (xs ! Suc (Suc j))) = sj + lj + l'"
      unfolding l'_def n_def by auto
    have l_eq: "l = lj + l'"
      unfolding l merged_at_def lj_def l'_def using True nf nxt by simp
    have right: "s + l = end \<or> \<not> p (s + l)"
    proof (cases "n = Suc (Suc j)")
      case True
      with rn s_eq l_eq show ?thesis by simp
    next
      case False
      with \<open>Suc j < n\<close> have lt: "Suc (Suc j) < length xs" by (simp add: n_def)
      with rn have nn: "\<not> fst (xs ! Suc (Suc j))" "fst (snd (xs ! Suc (Suc j))) = sj + lj + l'"
        by (simp_all add: n_def)
      from runs_nth[OF runs lt] nn have "0 < snd (snd (xs ! Suc (Suc j)))"
        "\<forall>i\<in>{sj + lj + l'..<sj + lj + l' + snd (snd (xs ! Suc (Suc j)))}. \<not> p i"
        by auto
      then have "\<not> p (sj + lj + l')" by auto
      with s_eq l_eq show ?thesis by (simp add: add.assoc)
    qed
    have "0 < lj \<and> lj \<le> l \<and> (lj < l \<or> s + l = end) \<and> (\<forall>i\<in>{s..<s + lj}. \<not> p i) \<and> (\<forall>i\<in>{s + lj..<s + l}. p i)"
      using rj rn s_eq l_eq by (auto simp: add.assoc)
    then have "\<exists>k. 0 < k \<and> k \<le> l \<and> (k < l \<or> s + l = end) \<and> (\<forall>i\<in>{s..<s + k}. \<not> p i) \<and> (\<forall>i\<in>{s + k..<s + l}. p i)"
      by blast
    with m rj rn s_eq l_eq left right show ?thesis unfolding p_def by (simp add: add.assoc)
  next
    case False
    with j have last: "n = Suc j" by simp
    have l_eq: "l = lj" unfolding l merged_at_def lj_def using False by simp
    have "0 < lj \<and> lj \<le> l \<and> (lj < l \<or> s + l = end) \<and> (\<forall>i\<in>{s..<s + lj}. \<not> p i) \<and> (\<forall>i\<in>{s + lj..<s + l}. p i)"
      using rj last s_eq l_eq by auto
    then have "\<exists>k. 0 < k \<and> k \<le> l \<and> (k < l \<or> s + l = end) \<and> (\<forall>i\<in>{s..<s + k}. \<not> p i) \<and> (\<forall>i\<in>{s + k..<s + l}. p i)"
      by blast
    with m rj last s_eq l_eq left show ?thesis unfolding p_def by simp
  qed
qed

lemma syllabify_covers:
  assumes le: "start \<le> end" and i: "start \<le> i" "i < end"
    and ns: "\<not> isTsekOrLongSkrtVowel b i"
  shows "\<exists>s l. (yesValue, s, l) \<in> set (syllabify b start end yesValue) \<and> s \<le> i \<and> i < s + l"
proof -
  define p where "p = isTsekOrLongSkrtVowel b"
  define xs where "xs = chunk start end p"
  have runs: "runs p start xs end" unfolding xs_def by (rule chunk_runs[OF le])
  from runs_cover[OF runs i] obtain j where j: "j < length xs"
    and inj: "fst (snd (xs ! j)) \<le> i" "i < fst (snd (xs ! j)) + snd (snd (xs ! j))" by blast
  from runs_nth[OF runs j] inj have "p i = fst (xs ! j)" by auto
  with ns have nf: "\<not> fst (xs ! j)" by (simp add: p_def)
  define s where "s = fst (snd (merged_at xs (length xs) j))"
  define l where "l = snd (snd (merged_at xs (length xs) j))"
  have "(yesValue, s, l) \<in> set (syllabify b start end yesValue)"
    unfolding syllabify_mem using j nf by (auto simp: s_def l_def xs_def p_def)
  moreover have "s \<le> i \<and> i < s + l"
    using inj unfolding s_def l_def merged_at_def by auto
  ultimately show ?thesis by blast
qed

text \<open>
  C4 (amended). For \<open>start \<le> end\<close>, every span \<open>(marker, s, l)\<close> that \<open>syllabify\<close> returns
  carries \<open>yesValue\<close>, lies inside the range and consists of at least one non-separator
  code unit followed by the separators that trail it: the trailing separators are
  part of the preceding syllable's span. The run of non-separators is whole (it is
  followed by a separator of the span, or the span ends at the end of the range) and
  the span is maximal (it ends at the end of the range or just before a
  non-separator, and begins at the start of the range or just after a separator), so
  a separator never belongs to the following syllable and no span is empty. Every
  non-separator code unit of the range lies in a returned span.
  A separator is a code unit of category TSEK or the unit U+0F7F or U+0F71.
\<close>

theorem syllabify_keeps_trailing_separators:
  assumes "start \<le> end"
  shows "(\<forall>(m, s, l)\<in>set (syllabify b start end yesValue).
            m = yesValue \<and> start \<le> s \<and> s + l \<le> end
            \<and> (\<exists>k. 0 < k \<and> k \<le> l \<and> (k < l \<or> s + l = end)
                   \<and> (\<forall>i\<in>{s..<s + k}. \<not> isTsekOrLongSkrtVowel b i)
                   \<and> (\<forall>i\<in>{s + k..<s + l}. isTsekOrLongSkrtVowel b i))
            \<and> (s + l = end \<or> \<not> isTsekOrLongSkrtVowel b (s + l))
            \<and> (s = start \<or> isTsekOrLongSkrtVowel b (s - 1)))
       \<and> (\<forall>i\<in>{start..<end}. \<not> isTsekOrLongSkrtVowel b i \<longrightarrow>
            (\<exists>(m, s, l)\<in>set (syllabify b start end yesValue). s \<le> i \<and> i < s + l))"
proof (intro conjI ballI impI)
  fix c assume "c \<in> set (syllabify b start end yesValue)"
  then have "(fst c, fst (snd c), snd (snd c)) \<in> set (syllabify b start end yesValue)"
    by simp
  from syllabify_span_shape[OF assms this]
  show "case c of (m, s, l) \<Rightarrow>
            m = yesValue \<and> start \<le> s \<and> s + l \<le> end
            \<and> (\<exists>k. 0 < k \<and> k \<le> l \<and> (k < l \<or> s + l = end)
                   \<and> (\<forall>i\<in>{s..<s + k}. \<not> isTsekOrLongSkrtVowel b i)
                   \<and> (\<forall>i\<in>{s + k..<s + l}. isTsekOrLongSkrtVowel b i))
            \<and> (s + l = end \<or> \<not> isTsekOrLongSkrtVowel b (s + l))
            \<and> (s = start \<or> isTsekOrLongSkrtVowel b (s - 1))"
    by (simp add: case_prod_beta)
next
  fix i assume "i \<in> {start..<end}" and ns: "\<not> isTsekOrLongSkrtVowel b i"
  then have "start \<le> i" "i < end" by simp_all
  from syllabify_covers[OF assms this ns, of yesValue]
  show "\<exists>(m, s, l)\<in>set (syllabify b start end yesValue). s \<le> i \<and> i < s + l"
    by force
qed

text \<open>Witness for C4 (amended): the run tsek, U+0F40, tsek, tsek, U+0F41 gives the spans
  \<open>[1, 4)\<close> (one letter and its two trailing tseks) and \<open>[4, 5)\<close>; the leading tsek is in
  no span.\<close>

theorem syllabify_keeps_trailing_separators_witness:
  "syllabify separated_run 0 5 K_TEXT = [(K_TEXT, 1, 3), (K_TEXT, 4, 1)]
   \<and> (\<exists>k. 0 < k \<and> k \<le> (3::nat) \<and> (k < 3 \<or> 1 + 3 = (5::nat))
          \<and> (\<forall>i\<in>{1..<1 + k}. \<not> isTsekOrLongSkrtVowel separated_run i)
          \<and> (\<forall>i\<in>{1 + k..<1 + 3}. isTsekOrLongSkrtVowel separated_run i))
   \<and> \<not> isTsekOrLongSkrtVowel separated_run (1 + 3)
   \<and> isTsekOrLongSkrtVowel separated_run (1 - 1)
   \<and> (\<exists>(m, s, l)\<in>set (syllabify separated_run 0 5 K_TEXT). s \<le> 4 \<and> 4 < s + l)"
proof -
  have ev: "syllabify separated_run 0 5 K_TEXT = [(K_TEXT, 1, 3), (K_TEXT, 4, 1)]"
    by code_simp
  have ns: "\<not> isTsekOrLongSkrtVowel separated_run 4" by code_simp
  have sp: "isTsekOrLongSkrtVowel separated_run 0" by code_simp
  have le: "(0::nat) \<le> 5" by simp
  note th = syllabify_keeps_trailing_separators[OF le, of separated_run K_TEXT]
  from th have "\<exists>k. 0 < k \<and> k \<le> (3::nat) \<and> (k < 3 \<or> 1 + 3 = (5::nat))
          \<and> (\<forall>i\<in>{1..<1 + k}. \<not> isTsekOrLongSkrtVowel separated_run i)
          \<and> (\<forall>i\<in>{1 + k..<1 + 3}. isTsekOrLongSkrtVowel separated_run i)"
    unfolding ev by simp
  moreover from th ns
  have "\<exists>(m, s, l)\<in>set (syllabify separated_run 0 5 K_TEXT). s \<le> 4 \<and> 4 < s + l"
    by simp
  ultimately show ?thesis using ev ns sp by simp
qed

text \<open>Counterexample to C4 as stated: for the run U+0F40, tsek the one returned span is
  \<open>[0, 2)\<close>, and index 1 inside it is the tsek.\<close>

theorem syllabify_span_contains_tsek:
  "syllabify (new_BoString [0x0F40, 0x0F0B] []) 0 2 K_TEXT = [(K_TEXT, 0, 2)]
   \<and> bs_getCharType (new_BoString [0x0F40, 0x0F0B] []) 1 = Some M_TSEK
   \<and> isTsekOrLongSkrtVowel (new_BoString [0x0F40, 0x0F0B] []) 1"
  by code_simp

section \<open>BasicTrie: empty words and missing words\<close>

lemma navigate_missing: "node_at n ws = None \<Longrightarrow> snd (navigate n ws) = False"
  by (induction ws arbitrary: n) (auto simp: getChild_def split: option.splits)

lemma navigate_reached: "node_at n ws = Some m \<Longrightarrow> navigate n ws = (m, True)"
  by (induction ws arbitrary: n) (auto simp: getChild_def split: option.splits)

lemma map_of_modify_child:
  "map_of cs k = Some c \<Longrightarrow> map_of (modify_child f k ks cs) k = Some (modify_at f ks c)"
  by (induction cs) (auto split: if_splits)

lemma node_at_modify_at:
  "node_at n ws = Some m \<Longrightarrow> node_at (modify_at f ws n) ws = Some (f m)"
proof (induction ws arbitrary: n)
  case Nil
  then show ?case by simp
next
  case (Cons k ks)
  obtain lbl cs lf d where n: "n = TrieNode lbl cs lf d" by (cases n)
  from Cons.prems n obtain c where c: "map_of cs k = Some c" "node_at c ks = Some m"
    by (auto split: option.splits)
  from Cons.IH[OF c(2)] map_of_modify_child[OF c(1), of f ks] n show ?case by simp
qed

lemma modify_child_same:
  "map_of cs k = Some c \<Longrightarrow> modify_at f ks c = c \<Longrightarrow> modify_child f k ks cs = cs"
  by (induction cs) (auto split: if_splits)

lemma modify_at_same:
  "node_at n ws = Some m \<Longrightarrow> f m = m \<Longrightarrow> modify_at f ws n = n"
proof (induction ws arbitrary: n)
  case Nil
  then show ?case by simp
next
  case (Cons k ks)
  obtain lbl cs lf d where n: "n = TrieNode lbl cs lf d" by (cases n)
  from Cons.prems n obtain c where c: "map_of cs k = Some c" "node_at c ks = Some m"
    by (auto split: option.splits)
  from Cons.IH[of c, OF c(2) Cons.prems(2)] have "modify_at f ks c = c" .
  from modify_child_same[OF c(1) this] n show ?case by simp
qed

lemma map_of_modify_child_other:
  "k' \<noteq> k \<Longrightarrow> map_of (modify_child f k ks cs) k' = map_of cs k'"
  by (induction cs) auto

lemma navigate_modify_at_other:
  assumes f: "\<And>x. children (f x) = children x" "\<And>x. data (f x) = data x"
  shows "node_at n ws = Some m \<Longrightarrow> ws' \<noteq> ws \<Longrightarrow>
     snd (navigate (modify_at f ws n) ws') = snd (navigate n ws')
     \<and> data (fst (navigate (modify_at f ws n) ws')) = data (fst (navigate n ws'))
     \<and> (snd (navigate n ws') \<longrightarrow>
          leaf (fst (navigate (modify_at f ws n) ws')) = leaf (fst (navigate n ws')))"
proof (induction ws' arbitrary: n ws)
  case Nil
  then obtain k ks where ws: "ws = k # ks" by (cases ws) auto
  obtain lbl cs lf d where n: "n = TrieNode lbl cs lf d" by (cases n)
  show ?case by (simp add: ws n)
next
  case (Cons k' ks')
  obtain lbl cs lf d where n: "n = TrieNode lbl cs lf d" by (cases n)
  show ?case
  proof (cases ws)
    case Nil
    then show ?thesis by (simp add: getChild_def f split: option.splits)
  next
    case (Cons k ks)
    show ?thesis
    proof (cases "k' = k")
      case True
      from Cons.prems(1) n Cons obtain c where
        c: "map_of cs k = Some c" "node_at c ks = Some m" by (auto split: option.splits)
      from Cons.prems(2) Cons True have "ks' \<noteq> ks" by simp
      from Cons.IH[OF c(2) this] map_of_modify_child[OF c(1), of f ks] c(1) True
      show ?thesis by (simp add: Cons n getChild_def)
    next
      case False
      from map_of_modify_child_other[OF this, of f ks cs]
      show ?thesis by (simp add: Cons n getChild_def split: option.splits)
    qed
  qed
qed

lemma hasWord_modify_at_other:
  assumes f: "\<And>x. children (f x) = children x" "\<And>x. data (f x) = data x"
    and at: "node_at (head t) ws = Some m" and ne: "wordArray w' \<noteq> ws"
  shows "hasWord (t\<lparr> head := modify_at f ws (head t) \<rparr>) w' = hasWord t w'"
  using navigate_modify_at_other[of f "head t" ws m "wordArray w'", OF f at ne]
  by (auto simp: hasWord_def split: prod.splits)

text \<open>
  C8 (amended). \<open>hasWord\<close>, \<open>addData\<close> and \<open>deactivate\<close> fail with the empty-word error
  when the word is the empty string or the empty array. For a non-empty word,
  \<open>addData\<close> returns false and leaves the trie unchanged when the path is missing or
  the node reached is not a leaf; \<open>deactivate\<close> returns false and leaves the trie
  unchanged when the path is missing. When the path exists, \<open>deactivate\<close> returns true
  whether or not the node reached is a leaf, and sets that node's leaf flag to the
  \<open>reverse\<close> argument: in the resulting trie the path leads to the same node (label,
  children and data as before) with \<open>leaf = reverse\<close>, \<open>hasWord\<close> reports
  \<open>exists = reverse\<close> with the node's data, \<open>hasWord\<close> of every other word answers as
  before, and the trie is unchanged when the flag already had that value.
\<close>

theorem trie_empty_word_and_missing_path:
  "(word_is_empty w \<longrightarrow>
      hasWord t w = Inl EmptyWord \<and> addData t w d = Inl EmptyWord
      \<and> deactivate t w r = Inl EmptyWord)
   \<and> (\<not> word_is_empty w
        \<and> (case node_at (head t) (wordArray w) of None \<Rightarrow> True | Some n \<Rightarrow> \<not> leaf n) \<longrightarrow>
      addData t w d = Inr (False, t))
   \<and> (\<not> word_is_empty w \<and> node_at (head t) (wordArray w) = None \<longrightarrow>
      deactivate t w r = Inr (False, t))
   \<and> (\<forall>n. \<not> word_is_empty w \<and> node_at (head t) (wordArray w) = Some n \<longrightarrow>
        (\<exists>t'. deactivate t w r = Inr (True, t')
           \<and> node_at (head t') (wordArray w)
                = Some (TrieNode (label n) (children n) r (data n))
           \<and> hasWord t' w = Inr (r, data n)
           \<and> (\<forall>w'. wordArray w' \<noteq> wordArray w \<longrightarrow> hasWord t' w' = hasWord t w')
           \<and> (leaf n = r \<longrightarrow> t' = t)))"
proof -
  have a: "addData t w d = Inr (False, t)"
    if "\<not> word_is_empty w" "case node_at (head t) (wordArray w) of None \<Rightarrow> True | Some n \<Rightarrow> \<not> leaf n"
  proof (cases "node_at (head t) (wordArray w)")
    case None
    from navigate_missing[OF this] that show ?thesis
      by (auto simp: addData_def split: prod.splits)
  next
    case (Some n)
    from navigate_reached[OF this] that Some show ?thesis
      by (simp add: addData_def)
  qed
  have b: "deactivate t w r = Inr (False, t)"
    if "\<not> word_is_empty w" "node_at (head t) (wordArray w) = None"
    using navigate_missing[OF that(2)] that(1)
    by (auto simp: deactivate_def split: prod.splits)
  have c: "\<exists>t'. deactivate t w r = Inr (True, t')
           \<and> node_at (head t') (wordArray w)
                = Some (TrieNode (label n) (children n) r (data n))
           \<and> hasWord t' w = Inr (r, data n)
           \<and> (\<forall>w'. wordArray w' \<noteq> wordArray w \<longrightarrow> hasWord t' w' = hasWord t w')
           \<and> (leaf n = r \<longrightarrow> t' = t)"
    if ne: "\<not> word_is_empty w" and at: "node_at (head t) (wordArray w) = Some n" for n
  proof -
    define f where "f = (\<lambda>n. TrieNode (label n) (children n) r (data n))"
    define t' where "t' = t\<lparr> head := modify_at f (wordArray w) (head t) \<rparr>"
    have d: "deactivate t w r = Inr (True, t')"
      using navigate_reached[OF at] ne by (simp add: deactivate_def t'_def f_def)
    have at': "node_at (head t') (wordArray w) = Some (f n)"
      using node_at_modify_at[OF at, of f] by (simp add: t'_def)
    have hw: "hasWord t' w = Inr (r, data n)"
      using navigate_reached[OF at'] ne by (auto simp: hasWord_def f_def)
    have same: "t' = t" if "leaf n = r"
    proof -
      from that have "f n = n" by (cases n) (simp add: f_def)
      from modify_at_same[of "head t" "wordArray w" n f, OF at this] show ?thesis
        by (simp add: t'_def)
    qed
    have other: "hasWord t' w' = hasWord t w'" if "wordArray w' \<noteq> wordArray w" for w'
      unfolding t'_def
      by (rule hasWord_modify_at_other[OF _ _ at that]) (simp_all add: f_def)
    from d at' hw same other show ?thesis unfolding f_def by blast
  qed
  show ?thesis using a b c by (simp add: hasWord_def addData_def deactivate_def)
qed

text \<open>Witness for C8 (amended), on the trie holding the word \<open>ab\<close>: the empty words, the
  prefix \<open>a\<close> (a node that is not a leaf), the missing word \<open>c\<close>, and \<open>deactivate\<close> on the
  word \<open>ab\<close> (which stops being a word, while \<open>hasWord\<close> of \<open>a\<close> answers as before) and
  with \<open>reverse = true\<close> on the prefix \<open>a\<close> (which becomes a word).\<close>

theorem trie_empty_word_and_missing_path_witness:
  "hasWord two_syllable_trie (WordArray []) = Inl EmptyWord
   \<and> addData two_syllable_trie (WordString []) (DataNumber 3) = Inl EmptyWord
   \<and> deactivate two_syllable_trie (WordArray []) False = Inl EmptyWord
   \<and> addData two_syllable_trie (WordArray [[97]]) (DataNumber 3) = Inr (False, two_syllable_trie)
   \<and> addData two_syllable_trie (WordArray [[99]]) (DataNumber 3) = Inr (False, two_syllable_trie)
   \<and> deactivate two_syllable_trie (WordArray [[99]]) True = Inr (False, two_syllable_trie)
   \<and> deactivate two_syllable_trie (WordArray [[97]]) False = Inr (True, two_syllable_trie)
   \<and> (\<exists>t'. deactivate two_syllable_trie (WordArray [[97], [98]]) False = Inr (True, t')
          \<and> hasWord t' (WordArray [[97], [98]])
               = Inr (False, empty_data\<lparr> d_senses := Some [] \<rparr>)
          \<and> hasWord t' (WordString [97]) = Inr (False, empty_data))
   \<and> (\<exists>t'. deactivate two_syllable_trie (WordArray [[97]]) True = Inr (True, t')
          \<and> hasWord t' (WordArray [[97]]) = Inr (True, empty_data))"
proof -
  have h1: "node_at (head two_syllable_trie) (wordArray (WordArray [[97]]))
      = Some (TrieNode [97] [([98], TrieNode [98] [] True (empty_data\<lparr> d_senses := Some [] \<rparr>))]
                False empty_data)"
    and h2: "case node_at (head two_syllable_trie) (wordArray (WordArray [[97]])) of
               None \<Rightarrow> True | Some n \<Rightarrow> \<not> leaf n"
    and h3: "node_at (head two_syllable_trie) (wordArray (WordArray [[99]])) = None"
    and h4: "node_at (head two_syllable_trie) (wordArray (WordArray [[97], [98]]))
      = Some (TrieNode [98] [] True (empty_data\<lparr> d_senses := Some [] \<rparr>))"
    by code_simp+
  have h5: "hasWord two_syllable_trie (WordString [97]) = Inr (False, empty_data)"
    by code_simp
  have e1: "\<not> word_is_empty (WordArray [[97]])" "\<not> word_is_empty (WordArray [[97], [98]])"
    "\<not> word_is_empty (WordArray [[99]])" "word_is_empty (WordArray [])"
    "word_is_empty (WordString [])" by simp_all
  note th = trie_empty_word_and_missing_path
  from th[of "WordArray []" two_syllable_trie "DataNumber 3" False] e1
  have p1: "hasWord two_syllable_trie (WordArray []) = Inl EmptyWord"
    "deactivate two_syllable_trie (WordArray []) False = Inl EmptyWord" by blast+
  from th[of "WordString []" two_syllable_trie "DataNumber 3" False] e1
  have p2: "addData two_syllable_trie (WordString []) (DataNumber 3) = Inl EmptyWord" by blast
  from th[of "WordArray [[97]]" two_syllable_trie "DataNumber 3" False] e1 h1 h2
  have p3: "addData two_syllable_trie (WordArray [[97]]) (DataNumber 3) = Inr (False, two_syllable_trie)"
    and p4: "deactivate two_syllable_trie (WordArray [[97]]) False = Inr (True, two_syllable_trie)"
    by auto
  from th[of "WordArray [[99]]" two_syllable_trie "DataNumber 3" True] e1 h3
  have p5: "addData two_syllable_trie (WordArray [[99]]) (DataNumber 3) = Inr (False, two_syllable_trie)"
    and p6: "deactivate two_syllable_trie (WordArray [[99]]) True = Inr (False, two_syllable_trie)"
    by auto
  from th[of "WordArray [[97], [98]]" two_syllable_trie "DataNumber 3" False] e1 h4
  obtain t' where
    q: "deactivate two_syllable_trie (WordArray [[97], [98]]) False = Inr (True, t')"
       "hasWord t' (WordArray [[97], [98]]) = Inr (False, empty_data\<lparr> d_senses := Some [] \<rparr>)"
       "\<forall>w'. wordArray w' \<noteq> wordArray (WordArray [[97], [98]])
              \<longrightarrow> hasWord t' w' = hasWord two_syllable_trie w'"
    by auto
  from q(3) have "hasWord t' (WordString [97]) = hasWord two_syllable_trie (WordString [97])"
    by simp
  with h5 have "hasWord t' (WordString [97]) = Inr (False, empty_data)" by simp
  with q(1,2)
  have p7: "\<exists>t'. deactivate two_syllable_trie (WordArray [[97], [98]]) False = Inr (True, t')
          \<and> hasWord t' (WordArray [[97], [98]])
               = Inr (False, empty_data\<lparr> d_senses := Some [] \<rparr>)
          \<and> hasWord t' (WordString [97]) = Inr (False, empty_data)"
    by blast
  from th[of "WordArray [[97]]" two_syllable_trie "DataNumber 3" True] e1 h1
  have p8: "\<exists>t'. deactivate two_syllable_trie (WordArray [[97]]) True = Inr (True, t')
          \<and> hasWord t' (WordArray [[97]]) = Inr (True, empty_data)"
    by auto
  from p1 p2 p3 p4 p5 p6 p7 p8 show ?thesis by blast
qed

text \<open>Counterexample to C8 as stated: \<open>a\<close> is not a word of the trie (its node is not a
  leaf), yet \<open>deactivate(['a'], true)\<close> returns true and changes the trie.\<close>

theorem deactivate_true_on_non_leaf:
  "hasWord two_syllable_trie (WordArray [[97]]) = Inr (False, empty_data)
   \<and> map_sum id fst (deactivate two_syllable_trie (WordArray [[97]]) True) = Inr True
   \<and> map_sum id snd (deactivate two_syllable_trie (WordArray [[97]]) True) \<noteq> Inr two_syllable_trie"
  by code_simp


section \<open>Token serialisation\<close>

lemma omit_str: "((if truthy_str v then v else None) = None) = (\<not> truthy_str v)"
  by (cases v) (simp_all add: truthy_str_def)

lemma omit_bool: "((if truthy_bool v then v else None) = None) = (\<not> truthy_bool v)"
  by (cases v) (simp_all add: truthy_bool_def)

lemma keep_str: "v = None \<or> truthy_str v \<Longrightarrow> (if truthy_str v then v else None) = v"
  by auto

lemma keep_bool: "v = None \<or> truthy_bool v \<Longrightarrow> (if truthy_bool v then v else None) = v"
  by auto

text \<open>
  C9 (amended). \<open>Token.fromJSON(t.toJSON())\<close> agrees with \<open>t\<close> on text, start, length,
  chunkType, freq, charTypes, syllables, syllableIndices, syllableStartEnd, senses and
  affixation; each of textCleaned, textUnaffixed, pos, lemma, sanskrit, affix and
  affixHost comes back as it was when it is absent or truthy and comes back absent
  when it is falsy; properties outside the JSON key list (sense, formFreq) are not
  carried over. Hence the round trip returns \<open>t\<close> itself when no optional string or
  boolean field is present and falsy and no such extra property is set. \<open>toJSON\<close>
  omits textCleaned, textUnaffixed, pos, lemma, sanskrit, affix and affixHost exactly
  when they are absent or falsy, and omits freq and the array- and object-valued
  fields exactly when they are absent (a freq of 0 is kept).
\<close>

theorem json_round_trip_up_to_falsy:
  "fromJSON (toJSON t) =
     t\<lparr> t_textCleaned := (if truthy_str (t_textCleaned t) then t_textCleaned t else None),
        t_textUnaffixed := (if truthy_str (t_textUnaffixed t) then t_textUnaffixed t else None),
        t_pos := (if truthy_str (t_pos t) then t_pos t else None),
        t_lemma := (if truthy_str (t_lemma t) then t_lemma t else None),
        t_sanskrit := (if truthy_bool (t_sanskrit t) then t_sanskrit t else None),
        t_affix := (if truthy_bool (t_affix t) then t_affix t else None),
        t_affixHost := (if truthy_bool (t_affixHost t) then t_affixHost t else None),
        t_sense := None, t_formFreq := None \<rparr>
   \<and> ((t_textCleaned t = None \<or> truthy_str (t_textCleaned t))
        \<and> (t_textUnaffixed t = None \<or> truthy_str (t_textUnaffixed t))
        \<and> (t_pos t = None \<or> truthy_str (t_pos t))
        \<and> (t_lemma t = None \<or> truthy_str (t_lemma t))
        \<and> (t_sanskrit t = None \<or> truthy_bool (t_sanskrit t))
        \<and> (t_affix t = None \<or> truthy_bool (t_affix t))
        \<and> (t_affixHost t = None \<or> truthy_bool (t_affixHost t))
        \<and> t_sense t = None \<and> t_formFreq t = None
       \<longrightarrow> fromJSON (toJSON t) = t)
   \<and> (j_textCleaned (toJSON t) = None) = (\<not> truthy_str (t_textCleaned t))
   \<and> (j_textUnaffixed (toJSON t) = None) = (\<not> truthy_str (t_textUnaffixed t))
   \<and> (j_pos (toJSON t) = None) = (\<not> truthy_str (t_pos t))
   \<and> (j_lemma (toJSON t) = None) = (\<not> truthy_str (t_lemma t))
   \<and> (j_sanskrit (toJSON t) = None) = (\<not> truthy_bool (t_sanskrit t))
   \<and> (j_affix (toJSON t) = None) = (\<not> truthy_bool (t_affix t))
   \<and> (j_affixHost (toJSON t) = None) = (\<not> truthy_bool (t_affixHost t))
   \<and> (j_freq (toJSON t) = None) = (t_freq t = None)
   \<and> (j_charTypes (toJSON t) = None) = (t_charTypes t = None)
   \<and> (j_syllables (toJSON t) = None) = (t_syllables t = None)
   \<and> (j_syllableIndices (toJSON t) = None) = (t_syllableIndices t = None)
   \<and> (j_syllableStartEnd (toJSON t) = None) = (t_syllableStartEnd t = None)
   \<and> (j_senses (toJSON t) = None) = (t_senses t = None)
   \<and> (j_affixation (toJSON t) = None) = (t_affixation t = None)"
proof -
  have rt: "fromJSON (toJSON t) =
     t\<lparr> t_textCleaned := (if truthy_str (t_textCleaned t) then t_textCleaned t else None),
        t_textUnaffixed := (if truthy_str (t_textUnaffixed t) then t_textUnaffixed t else None),
        t_pos := (if truthy_str (t_pos t) then t_pos t else None),
        t_lemma := (if truthy_str (t_lemma t) then t_lemma t else None),
        t_sanskrit := (if truthy_bool (t_sanskrit t) then t_sanskrit t else None),
        t_affix := (if truthy_bool (t_affix t) then t_affix t else None),
        t_affixHost := (if truthy_bool (t_affixHost t) then t_affixHost t else None),
        t_sense := None, t_formFreq := None \<rparr>"
    by (cases t) (simp add: fromJSON_def toJSON_def)
  have same: "fromJSON (toJSON t) = t"
    if "(t_textCleaned t = None \<or> truthy_str (t_textCleaned t))
        \<and> (t_textUnaffixed t = None \<or> truthy_str (t_textUnaffixed t))
        \<and> (t_pos t = None \<or> truthy_str (t_pos t))
        \<and> (t_lemma t = None \<or> truthy_str (t_lemma t))
        \<and> (t_sanskrit t = None \<or> truthy_bool (t_sanskrit t))
        \<and> (t_affix t = None \<or> truthy_bool (t_affix t))
        \<and> (t_affixHost t = None \<or> truthy_bool (t_affixHost t))
        \<and> t_sense t = None \<and> t_formFreq t = None"
    unfolding rt using that by (simp add: keep_str keep_bool)
  have omit: "(j_textCleaned (toJSON t) = None) = (\<not> truthy_str (t_textCleaned t))"
    "(j_textUnaffixed (toJSON t) = None) = (\<not> truthy_str (t_textUnaffixed t))"
    "(j_pos (toJSON t) = None) = (\<not> truthy_str (t_pos t))"
    "(j_lemma (toJSON t) = None) = (\<not> truthy_str (t_lemma t))"
    "(j_sanskrit (toJSON t) = None) = (\<not> truthy_bool (t_sanskrit t))"
    "(j_affix (toJSON t) = None) = (\<not> truthy_bool (t_affix t))"
    "(j_affixHost (toJSON t) = None) = (\<not> truthy_bool (t_affixHost t))"
    by (simp_all add: toJSON_def omit_str omit_bool)
  have kept: "(j_freq (toJSON t) = None) = (t_freq t = None)"
    "(j_charTypes (toJSON t) = None) = (t_charTypes t = None)"
    "(j_syllables (toJSON t) = None) = (t_syllables t = None)"
    "(j_syllableIndices (toJSON t) = None) = (t_syllableIndices t = None)"
    "(j_syllableStartEnd (toJSON t) = None) = (t_syllableStartEnd t = None)"
    "(j_senses (toJSON t) = None) = (t_senses t = None)"
    "(j_affixation (toJSON t) = None) = (t_affixation t = None)"
    by (simp_all add: toJSON_def)
  from rt same omit kept show ?thesis by blast
qed

text \<open>Witness for C9 (amended): the token of the repository's own round-trip test.\<close>

theorem json_round_trip_up_to_falsy_witness:
  "fromJSON (toJSON test_token) = test_token"
proof -
  have "(t_textCleaned test_token = None \<or> truthy_str (t_textCleaned test_token))
        \<and> (t_textUnaffixed test_token = None \<or> truthy_str (t_textUnaffixed test_token))
        \<and> (t_pos test_token = None \<or> truthy_str (t_pos test_token))
        \<and> (t_lemma test_token = None \<or> truthy_str (t_lemma test_token))
        \<and> (t_sanskrit test_token = None \<or> truthy_bool (t_sanskrit test_token))
        \<and> (t_affix test_token = None \<or> truthy_bool (t_affix test_token))
        \<and> (t_affixHost test_token = None \<or> truthy_bool (t_affixHost test_token))
        \<and> t_sense test_token = None \<and> t_formFreq test_token = None"
    by code_simp
  with json_round_trip_up_to_falsy[of test_token] show ?thesis by blast
qed

text \<open>Counterexample to C9 as stated: a token whose \<open>sanskrit\<close> is \<open>false\<close> (the value
  \<open>createToken\<close> stores for every token without Sanskrit) comes back with \<open>sanskrit\<close>
  absent, and a \<open>freq\<close> of 0, which is falsy, is not omitted.\<close>

theorem json_round_trip_loses_false:
  "fromJSON (toJSON (default_Token\<lparr> t_sanskrit := Some False \<rparr>))
     \<noteq> default_Token\<lparr> t_sanskrit := Some False \<rparr>
   \<and> t_sanskrit (fromJSON (toJSON (default_Token\<lparr> t_sanskrit := Some False \<rparr>))) = None
   \<and> j_freq (toJSON (default_Token\<lparr> t_freq := Some 0 \<rparr>)) = Some 0"
  by (simp add: fromJSON_def toJSON_def default_Token_def truthy_bool_def truthy_str_def)



section \<open>Affix splitting\<close>

lemma splitAffixed_id: "splitAffixed tokens = tokens"
  by (induction tokens) (simp_all add: splitAffixed_def splitTokenAffix_def)

text \<open>So the \<open>splitAffixes\<close> argument of \<open>WordTokenizer.tokenize\<close> has no effect.\<close>

lemma splitAffixes_has_no_effect:
  "wt_tokenize fuel wt txt True sp = wt_tokenize fuel wt txt False sp"
  by (auto simp: splitAffixed_id wt_tokenize_def split: option.splits sum.splits)

text \<open>
  C6, at the text U+0F40 U+0F66, which ends in the affix U+0F66. Called with
  \<open>splitAffixes = true\<close>, \<open>WordTokenizer.tokenize\<close> returns one TEXT token, which
  \<open>hasAffix\<close> accepts; \<open>splitAffixed\<close> passes it on as it is, so the result holds no
  host token and no affix token, and the token is marked neither \<open>affixHost\<close> nor
  \<open>affix\<close>.
\<close>

theorem affixed_token_not_split:
  "wt_tokenize 1 (new_WordTokenizer None None) [0x0F40, 0x0F66] True False
     = Some (Inr ([affixed_token], new_WordTokenizer None None))
   \<and> hasAffix affixed_token
   \<and> splitAffixed [affixed_token] = [affixed_token]
   \<and> t_affixHost affixed_token = None \<and> t_affix affixed_token = None"
  by code_simp



section \<open>Sense selection\<close>

lemma sense_keys_eq:
  "sense_keys =
     (\<lambda>m. (if s_pos m = None then 0 else 1) + (if s_freq m = None then 0 else 1)
          + (if s_lemma m = None then 0 else 1) + (if s_sense m = None then 0 else 1)
          + (if s_affixed m = None then 0 else 1) + length (s_other m))"
  by (rule ext) (simp add: sense_keys_def)

lemma chooseBestSense_first_max:
  assumes "xs \<noteq> []"
  shows "\<exists>pre m post. xs = pre @ m # post \<and> chooseBestSense xs = Some m
           \<and> (\<forall>x\<in>set pre. sense_keys x < sense_keys m)
           \<and> (\<forall>x\<in>set post. sense_keys x \<le> sense_keys m)"
  using assms
proof (induction xs)
  case Nil
  then show ?case by simp
next
  case (Cons x xs)
  define f where "f = (\<lambda>m. - int (sense_keys m))"
  show ?case
  proof (cases "xs = []")
    case True
    then have "chooseBestSense (x # xs) = Some x" by (simp add: chooseBestSense_def)
    with True have "x # xs = [] @ x # [] \<and> chooseBestSense (x # xs) = Some x
        \<and> (\<forall>y\<in>set []. sense_keys y < sense_keys x)
        \<and> (\<forall>y\<in>set []. sense_keys y \<le> sense_keys x)" by simp
    then show ?thesis by blast
  next
    case False
    from Cons.IH[OF this] obtain pre m post where
      IH: "xs = pre @ m # post" "chooseBestSense xs = Some m"
          "\<forall>y\<in>set pre. sense_keys y < sense_keys m"
          "\<forall>y\<in>set post. sense_keys y \<le> sense_keys m" by blast
    from IH(2) obtain rest where srt: "sort_key f xs = m # rest"
      by (auto simp: chooseBestSense_def f_def split: list.splits)
    show ?thesis
    proof (cases "sense_keys m \<le> sense_keys x")
      case True
      then have "chooseBestSense (x # xs) = Some x"
        using srt by (simp add: chooseBestSense_def f_def[symmetric]) (simp add: f_def)
      moreover have "\<forall>y\<in>set xs. sense_keys y \<le> sense_keys x"
        using IH True by fastforce
      ultimately have "x # xs = [] @ x # xs \<and> chooseBestSense (x # xs) = Some x
        \<and> (\<forall>y\<in>set []. sense_keys y < sense_keys x)
        \<and> (\<forall>y\<in>set xs. sense_keys y \<le> sense_keys x)" by simp
      then show ?thesis by blast
    next
      case False
      then have "chooseBestSense (x # xs) = Some m"
        using srt by (simp add: chooseBestSense_def f_def[symmetric]) (simp add: f_def)
      moreover have "x # xs = (x # pre) @ m # post" using IH(1) by simp
      moreover have "\<forall>y\<in>set (x # pre). sense_keys y < sense_keys m"
        using IH(3) False by simp
      ultimately show ?thesis using IH(4) by blast
    qed
  qed
qed

text \<open>
  C7. \<open>chooseDefaultEntry\<close> treats every token of the array and leaves a token without
  senses as it is. For a token with a non-empty senses list it splits the senses by
  the \<open>affixed\<close> key into the explicitly non-affixed (key present and false), the
  unspecified (key absent) and the explicitly affixed ones, takes the first non-empty
  of these groups in that order, chooses in it the sense with the largest number of
  attributes, and writes that sense's pos, lemma, freq and sense to the token, each
  where the sense has the key. The attributes counted are the own keys of the sense object (pos, freq,
  lemma, sense, affixed and whatever further keys it carries); among several senses
  with the largest number the first in the list is chosen. For the senses
  \<open>[{pos: A, affixed: true}, {pos: B, affixed: false, lemma: L}, {pos: C}]\<close> the token's
  pos becomes B.
\<close>

theorem chooseDefaultEntry_takes_best_of_first_bucket:
  "length (chooseDefaultEntry tokens) = length tokens
   \<and> (\<forall>i<length tokens. t_senses (tokens ! i) = None \<or> t_senses (tokens ! i) = Some [] \<longrightarrow>
         chooseDefaultEntry tokens ! i = tokens ! i)
   \<and> (\<forall>i<length tokens. \<forall>senses.
         t_senses (tokens ! i) = Some senses \<and> senses \<noteq> [] \<longrightarrow>
         (let keys = (\<lambda>m. (if s_pos m = None then 0 else 1) + (if s_freq m = None then 0 else 1)
                          + (if s_lemma m = None then 0 else 1)
                          + (if s_sense m = None then 0 else 1)
                          + (if s_affixed m = None then 0 else 1) + length (s_other m));
              nonAffixed = filter (\<lambda>m. s_affixed m = Some False) senses;
              noAffixInfo = filter (\<lambda>m. s_affixed m = None) senses;
              affixed = filter (\<lambda>m. s_affixed m = Some True) senses;
              bucket = (if nonAffixed \<noteq> [] then nonAffixed
                        else if noAffixInfo \<noteq> [] then noAffixInfo else affixed)
          in \<exists>pre chosen post.
               bucket = pre @ chosen # post
               \<and> (\<forall>m\<in>set pre. keys m < keys chosen)
               \<and> (\<forall>m\<in>set post. keys m \<le> keys chosen)
               \<and> chooseDefaultEntry tokens ! i =
                   (tokens ! i)
                     \<lparr> t_pos := (case s_pos chosen of None \<Rightarrow> t_pos (tokens ! i)
                                 | Some v \<Rightarrow> Some v),
                       t_lemma := (case s_lemma chosen of None \<Rightarrow> t_lemma (tokens ! i)
                                   | Some v \<Rightarrow> Some v),
                       t_freq := (case s_freq chosen of None \<Rightarrow> t_freq (tokens ! i)
                                  | Some v \<Rightarrow> Some v),
                       t_sense := (case s_sense chosen of None \<Rightarrow> t_sense (tokens ! i)
                                   | Some v \<Rightarrow> Some v) \<rparr>))
   \<and> map t_pos (chooseDefaultEntry
         [tok\<lparr> t_senses := Some
            [\<lparr> s_pos = Some A, s_freq = None, s_lemma = None, s_sense = None,
               s_affixed = Some True, s_other = [] \<rparr>,
             \<lparr> s_pos = Some B, s_freq = None, s_lemma = Some L, s_sense = None,
               s_affixed = Some False, s_other = [] \<rparr>,
             \<lparr> s_pos = Some C, s_freq = None, s_lemma = None, s_sense = None,
               s_affixed = None, s_other = [] \<rparr>] \<rparr>]) = [Some B]"
proof (intro conjI allI impI)
  show "length (chooseDefaultEntry tokens) = length tokens"
    by (simp add: chooseDefaultEntry_def)
next
  fix i
  assume "i < length tokens"
    and "t_senses (tokens ! i) = None \<or> t_senses (tokens ! i) = Some []"
  then show "chooseDefaultEntry tokens ! i = tokens ! i"
    by (auto simp: chooseDefaultEntry_def chooseDefaultEntry_token_def)
next
  fix i senses
  assume i: "i < length tokens"
    and ts: "t_senses (tokens ! i) = Some senses \<and> senses \<noteq> []"
  define token where "token = tokens ! i"
  define bucket where "bucket =
      (if nonAffixed_group senses \<noteq> [] then nonAffixed_group senses
       else if noAffixInfo_group senses \<noteq> [] then noAffixInfo_group senses
       else affixed_group senses)"
  have ne: "bucket \<noteq> []"
  proof (rule ccontr)
    assume "\<not> bucket \<noteq> []"
    then have e: "nonAffixed_group senses = []" "noAffixInfo_group senses = []"
      "affixed_group senses = []" by (auto simp: bucket_def split: if_splits)
    from ts obtain m where m: "m \<in> set senses" by (cases senses) auto
    from e m show False
      unfolding nonAffixed_group_def noAffixInfo_group_def affixed_group_def filter_empty_conv
      by (cases "s_affixed m") auto
  qed
  from chooseBestSense_first_max[OF this] obtain pre chosen post where
    c: "bucket = pre @ chosen # post" "chooseBestSense bucket = Some chosen"
       "\<forall>x\<in>set pre. sense_keys x < sense_keys chosen"
       "\<forall>x\<in>set post. sense_keys x \<le> sense_keys chosen" by blast
  have "chooseDefaultEntry_token token = applyChosenSense token chosen"
    using ts c(2) ne
    by (auto simp: chooseDefaultEntry_token_def bucket_def Let_def token_def split: if_splits)
  with i have res: "chooseDefaultEntry tokens ! i = applyChosenSense token chosen"
    by (simp add: chooseDefaultEntry_def token_def)
  have "bucket = pre @ chosen # post
        \<and> (\<forall>m\<in>set pre. sense_keys m < sense_keys chosen)
        \<and> (\<forall>m\<in>set post. sense_keys m \<le> sense_keys chosen)
        \<and> chooseDefaultEntry tokens ! i =
             token\<lparr> t_pos := (case s_pos chosen of None \<Rightarrow> t_pos token | Some v \<Rightarrow> Some v),
                    t_lemma := (case s_lemma chosen of None \<Rightarrow> t_lemma token | Some v \<Rightarrow> Some v),
                    t_freq := (case s_freq chosen of None \<Rightarrow> t_freq token | Some v \<Rightarrow> Some v),
                    t_sense := (case s_sense chosen of None \<Rightarrow> t_sense token | Some v \<Rightarrow> Some v) \<rparr>"
    using c res by (simp add: applyChosenSense_def)
  then show "let keys = (\<lambda>m. (if s_pos m = None then 0 else 1) + (if s_freq m = None then 0 else 1)
                          + (if s_lemma m = None then 0 else 1)
                          + (if s_sense m = None then 0 else 1)
                          + (if s_affixed m = None then 0 else 1) + length (s_other m));
              nonAffixed = filter (\<lambda>m. s_affixed m = Some False) senses;
              noAffixInfo = filter (\<lambda>m. s_affixed m = None) senses;
              affixed = filter (\<lambda>m. s_affixed m = Some True) senses;
              bucket = (if nonAffixed \<noteq> [] then nonAffixed
                        else if noAffixInfo \<noteq> [] then noAffixInfo else affixed)
          in \<exists>pre chosen post.
               bucket = pre @ chosen # post
               \<and> (\<forall>m\<in>set pre. keys m < keys chosen)
               \<and> (\<forall>m\<in>set post. keys m \<le> keys chosen)
               \<and> chooseDefaultEntry tokens ! i =
                   (tokens ! i)
                     \<lparr> t_pos := (case s_pos chosen of None \<Rightarrow> t_pos (tokens ! i)
                                 | Some v \<Rightarrow> Some v),
                       t_lemma := (case s_lemma chosen of None \<Rightarrow> t_lemma (tokens ! i)
                                   | Some v \<Rightarrow> Some v),
                       t_freq := (case s_freq chosen of None \<Rightarrow> t_freq (tokens ! i)
                                  | Some v \<Rightarrow> Some v),
                       t_sense := (case s_sense chosen of None \<Rightarrow> t_sense (tokens ! i)
                                   | Some v \<Rightarrow> Some v) \<rparr>"
    unfolding Let_def sense_keys_eq[symmetric] token_def[symmetric]
      nonAffixed_group_def[symmetric] noAffixInfo_group_def[symmetric]
      affixed_group_def[symmetric] bucket_def[symmetric]
    by blast
next
  show "map t_pos (chooseDefaultEntry
         [tok\<lparr> t_senses := Some
            [\<lparr> s_pos = Some A, s_freq = None, s_lemma = None, s_sense = None,
               s_affixed = Some True, s_other = [] \<rparr>,
             \<lparr> s_pos = Some B, s_freq = None, s_lemma = Some L, s_sense = None,
               s_affixed = Some False, s_other = [] \<rparr>,
             \<lparr> s_pos = Some C, s_freq = None, s_lemma = None, s_sense = None,
               s_affixed = None, s_other = [] \<rparr>] \<rparr>]) = [Some B]"
    by (simp add: chooseDefaultEntry_def chooseDefaultEntry_token_def nonAffixed_group_def
          chooseBestSense_def applyChosenSense_def)
qed

text \<open>Witness for C7: the first of two tokens has no senses and stays as it is; the
  second has a lemma and five senses. The
  non-affixed group holds B (two keys), C (three keys, one of them \<open>formFreq\<close>) and D
  (three keys); the statement leaves C as the only possible choice, so the token gets
  pos C and keeps its lemma, although the affixed sense A has four keys.\<close>

theorem chooseDefaultEntry_takes_best_of_first_bucket_witness:
  "length (chooseDefaultEntry ranked_tokens) = 2
   \<and> chooseDefaultEntry ranked_tokens ! 0 = ranked_tokens ! 0
   \<and> chooseDefaultEntry ranked_tokens ! 1 = (ranked_tokens ! 1)\<lparr> t_pos := Some (js ''C'') \<rparr>
   \<and> t_lemma (chooseDefaultEntry ranked_tokens ! 1) = Some (js ''K'')"
proof -
  let ?B = "\<lparr> s_pos = Some (js ''B''), s_freq = None, s_lemma = None, s_sense = None,
        s_affixed = Some False, s_other = [] \<rparr>"
  let ?C = "\<lparr> s_pos = Some (js ''C''), s_freq = None, s_lemma = None, s_sense = None,
        s_affixed = Some False, s_other = [js ''formFreq''] \<rparr>"
  let ?D = "\<lparr> s_pos = Some (js ''D''), s_freq = Some 7, s_lemma = None, s_sense = None,
        s_affixed = Some False, s_other = [] \<rparr>"
  let ?keys = "\<lambda>m. (if s_pos m = None then 0 else 1) + (if s_freq m = None then 0 else 1)
                 + (if s_lemma m = None then 0 else 1) + (if s_sense m = None then 0 else 1)
                 + (if s_affixed m = None then 0 else (1::nat)) + length (s_other m)"
  let ?tok = "ranked_tokens ! 1"
  let ?upd = "\<lambda>chosen. ?tok
                 \<lparr> t_pos := (case s_pos chosen of None \<Rightarrow> t_pos ?tok | Some v \<Rightarrow> Some v),
                   t_lemma := (case s_lemma chosen of None \<Rightarrow> t_lemma ?tok | Some v \<Rightarrow> Some v),
                   t_freq := (case s_freq chosen of None \<Rightarrow> t_freq ?tok | Some v \<Rightarrow> Some v),
                   t_sense := (case s_sense chosen of None \<Rightarrow> t_sense ?tok | Some v \<Rightarrow> Some v) \<rparr>"
  have len: "length ranked_tokens = 2" by (simp add: ranked_tokens_def)
  have h: "t_senses ?tok = Some ranked_senses \<and> ranked_senses \<noteq> []"
    by (simp add: ranked_tokens_def ranked_senses_def)
  have g: "filter (\<lambda>m. s_affixed m = Some False) ranked_senses = [?B, ?C, ?D]"
    by (simp add: ranked_senses_def)
  have lem: "t_lemma ?tok = Some (js ''K'')" by (simp add: ranked_tokens_def)
  note th = chooseDefaultEntry_takes_best_of_first_bucket[of ranked_tokens]
  from th have l: "length (chooseDefaultEntry ranked_tokens) = 2" using len by simp
  have i: "1 < length ranked_tokens" using len by simp
  have z: "0 < length ranked_tokens" using len by simp
  have n: "t_senses (ranked_tokens ! 0) = None \<or> t_senses (ranked_tokens ! 0) = Some []"
    by (simp add: ranked_tokens_def default_Token_def)
  note u = th[THEN conjunct2, THEN conjunct1, rule_format, of 0, OF z n]
  note th2 = th[THEN conjunct2, THEN conjunct2, THEN conjunct1, rule_format, of 1 ranked_senses,
                OF i h, unfolded Let_def g]
  have "\<exists>pre chosen post.
        [?B, ?C, ?D] = pre @ chosen # post
        \<and> (\<forall>m\<in>set pre. ?keys m < ?keys chosen) \<and> (\<forall>m\<in>set post. ?keys m \<le> ?keys chosen)
        \<and> chooseDefaultEntry ranked_tokens ! 1 = ?upd chosen"
    using th2 by simp
  then obtain pre chosen post where
    c: "[?B, ?C, ?D] = pre @ chosen # post"
       "\<forall>m\<in>set pre. ?keys m < ?keys chosen" "\<forall>m\<in>set post. ?keys m \<le> ?keys chosen"
       "chooseDefaultEntry ranked_tokens ! 1 = ?upd chosen" by blast
  from c(1) have "(pre = [] \<and> chosen = ?B \<and> post = [?C, ?D])
      \<or> (pre = [?B] \<and> chosen = ?C \<and> post = [?D])
      \<or> (pre = [?B, ?C] \<and> chosen = ?D \<and> post = [])"
    by (auto simp: Cons_eq_append_conv)
  with c(2,3) have "chosen = ?C" by auto
  with c(4) have r: "chooseDefaultEntry ranked_tokens ! 1 = ?tok\<lparr> t_pos := Some (js ''C'') \<rparr>"
    by simp
  with lem have "t_lemma (chooseDefaultEntry ranked_tokens ! 1) = Some (js ''K'')" by simp
  with l u r show ?thesis by blast
qed


section \<open>The matching engine\<close>

lemma tokenize_loop_more_fuel:
  "tokenize_loop n cf trie c toks = Some r \<Longrightarrow> tokenize_loop (n + k) cf trie c toks = Some r"
proof (induction n arbitrary: trie c toks)
  case 0
  then show ?case by (simp add: tokenize_loop.simps split: if_splits)
next
  case (Suc n)
  show ?case
  proof (cases "c < length (chunks cf)")
    case False
    with Suc.prems show ?thesis by (simp add: tokenize_loop.simps)
  next
    case True
    show ?thesis
    proof (cases "walk_loop cf trie c toks c [] [] [] None")
      case (Inl e)
      with True Suc.prems show ?thesis by (simp add: tokenize_loop.simps)
    next
      case (Inr res)
      obtain toks' c' trie' where res: "res = (toks', c', trie')" by (cases res) auto
      from Suc.prems True Inr res have "tokenize_loop n cf trie' c' toks' = Some r"
        by (simp add: tokenize_loop.simps)
      from Suc.IH[OF this] True Inr res show ?thesis by (simp add: tokenize_loop.simps)
    qed
  qed
qed

text \<open>
  C3, evaluated on the greeting. \<open>serveSylsToTrie\<close> stores in the syllable slot of each
  entry the tuple \<open>[TEXT, syllable_start, syllable_length]\<close>, that is the numbers
  \<open>[100, 0, 4]\<close> for the first syllable, and as meta triple the start and length of the
  whole Tibetan run; the engine reads the three numbers as offsets, so the string it
  walks for the first syllable is \<open>text[100] + text[0] + text[4]\<close>, the two units
  U+0F56 U+0F64, and not the syllable's text.
\<close>

theorem syllable_slot_is_read_as_offsets:
  "chunks greeting_frame = [(Some (K_TEXT, 0, 4), (K_TEXT, 0, 8)), (Some (K_TEXT, 4, 4), (K_TEXT, 0, 8))]
   \<and> chunk_array (K_TEXT, 0, 4) = [100, 0, 4]
   \<and> syl_string greeting_frame (K_TEXT, 0, 4) = [0x0F56, 0x0F64]
   \<and> substring greeting 0 4 = [0x0F56, 0x0F40, 0x0FB2, 0x0F0B]
   \<and> substring greeting 0 3 = [0x0F56, 0x0F40, 0x0FB2]"
  by code_simp

text \<open>
  C2, evaluated on the text U+0F40 \<open>A\<close> with an empty trie. The token of the
  non-Tibetan entry gets start 0 and length 0: the second token starts before the
  first one ends, and the Latin letter at index 1 lies in no span.
\<close>

theorem non_tibetan_token_has_empty_span:
  "map_option (map token_span) (result_tokens (tokenize 2 new_BasicTrie mixed_frame)) = Some [(0, 1), (0, 0)]
   \<and> bs_getCharType (bs mixed_frame) 1 = Some M_LATIN"
  by code_simp

lemma walk_empty_trie: "walk new_BasicTrie s None = None"
  by (simp add: walk_def new_BasicTrie_def getChild_def new_TrieNode_def)

lemma chunksToToken_single:
  "i < length (chunks cf) \<Longrightarrow>
     chunksToToken cf [i] empty_data None = Inr (plain_token cf i, empty_data)"
  by (simp add: chunksToToken_def chunk_at_def plain_token_def stamp_ttype_def truthy_str_def
        Let_def)

lemma walk_loop_empty_trie:
  "c < length (chunks cf) \<Longrightarrow>
     walk_loop cf new_BasicTrie c toks c [] [] [] None
       = Inr (toks @ [plain_token cf c], c + 1, new_BasicTrie)"
  by (subst walk_loop.simps)
     (simp add: walk_empty_trie stop_walking_def chunksToToken_single split: option.splits)

lemma tokenize_loop_empty_trie:
  "length (chunks cf) - c \<le> fuel \<Longrightarrow>
     tokenize_loop fuel cf new_BasicTrie c toks
       = Some (Inr (toks @ map (plain_token cf) [c..<length (chunks cf)], new_BasicTrie))"
proof (induction fuel arbitrary: c toks)
  case 0
  then show ?case by (simp add: tokenize_loop.simps)
next
  case (Suc fuel)
  show ?case
  proof (cases "c < length (chunks cf)")
    case False
    then show ?thesis by (simp add: tokenize_loop.simps)
  next
    case True
    with Suc.prems have "length (chunks cf) - (c + 1) \<le> fuel" by simp
    from Suc.IH[OF this, of "toks @ [plain_token cf c]"] True
    show ?thesis
      by (simp add: tokenize_loop.simps[of "Suc fuel"] walk_loop_empty_trie upt_conv_Cons)
  qed
qed

lemma plain_token_no_senses: "t_senses (plain_token cf i) = None"
  by (simp add: plain_token_def createToken_def assign_data_def empty_data_def
        default_Token_def Let_def)

lemma plain_token_no_unaffixed: "t_textUnaffixed (plain_token cf i) = None"
  by (simp add: plain_token_def createToken_def assign_data_def empty_data_def
        default_Token_def Let_def)

lemma finalize_plain:
  "chooseDefaultEntry (getDefaultLemma pl (map (plain_token cf) is)) = map (plain_token cf) is"
  by (induction "is")
     (simp_all add: chooseDefaultEntry_def getDefaultLemma_def getDefaultLemma_token_def
        chooseDefaultEntry_token_def plain_token_no_senses plain_token_no_unaffixed
        truthy_str_def)

lemma wt_tokenize_new:
  assumes "length (chunks (serveSylsToTrie
             (new_ChunkFramework txt (wt_ignoreChars (new_WordTokenizer config ignoreChars)) sp)))
           \<le> fuel"
  shows "wt_tokenize fuel (new_WordTokenizer config ignoreChars) txt sa sp =
     Some (Inr (map (plain_token (serveSylsToTrie
                       (new_ChunkFramework txt
                          (wt_ignoreChars (new_WordTokenizer config ignoreChars)) sp)))
                    [0..<length (chunks (serveSylsToTrie
                       (new_ChunkFramework txt
                          (wt_ignoreChars (new_WordTokenizer config ignoreChars)) sp)))],
                new_WordTokenizer config ignoreChars))"
proof -
  define cf where "cf = serveSylsToTrie
    (new_ChunkFramework txt (wt_ignoreChars (new_WordTokenizer config ignoreChars)) sp)"
  have trie: "wt_trie (new_WordTokenizer config ignoreChars) = new_BasicTrie"
    by (simp add: new_WordTokenizer_def)
  from assms have "length (chunks cf) - 0 \<le> fuel" by (simp add: cf_def)
  from tokenize_loop_empty_trie[OF this, of "[]"]
  have tk: "tokenize fuel new_BasicTrie cf
      = Some (Inr (map (plain_token cf) [0..<length (chunks cf)], new_BasicTrie))"
    by (simp add: tokenize_def)
  have same: "(new_WordTokenizer config ignoreChars)\<lparr> wt_trie := new_BasicTrie \<rparr>
      = new_WordTokenizer config ignoreChars"
    by (simp add: new_WordTokenizer_def)
  show ?thesis
    unfolding wt_tokenize_def cf_def[symmetric] trie Let_def tk
    by (simp add: splitAffixed_id finalize_plain same)
qed

text \<open>
  C10. The constructor of \<open>WordTokenizer\<close> gives the engine a new, empty \<open>BasicTrie\<close>
  whatever the configuration holds, and a call of \<open>tokenize\<close> leaves that trie empty.
  So for every text the call returns (one outer iteration per entry of the frame is
  enough), two tokenizers built from any two configurations and the same ignore set
  return the same token array, and no token carries senses.
\<close>

theorem wordtokenizer_ignores_dictionary:
  "wt_trie (new_WordTokenizer config1 ignoreChars) = new_BasicTrie
   \<and> (length (chunks (serveSylsToTrie
         (new_ChunkFramework txt (wt_ignoreChars (new_WordTokenizer config1 ignoreChars)) sp)))
        \<le> fuel \<longrightarrow>
       (\<exists>tokens.
          wt_tokenize fuel (new_WordTokenizer config1 ignoreChars) txt sa sp
            = Some (Inr (tokens, new_WordTokenizer config1 ignoreChars))
          \<and> wt_tokenize fuel (new_WordTokenizer config2 ignoreChars) txt sa sp
            = Some (Inr (tokens, new_WordTokenizer config2 ignoreChars))
          \<and> (\<forall>t\<in>set tokens. t_senses t = None)))"
proof -
  have ig: "wt_ignoreChars (new_WordTokenizer config2 ignoreChars)
      = wt_ignoreChars (new_WordTokenizer config1 ignoreChars)"
    by (simp add: new_WordTokenizer_def)
  show ?thesis
  proof (intro conjI impI)
    show "wt_trie (new_WordTokenizer config1 ignoreChars) = new_BasicTrie"
      by (simp add: new_WordTokenizer_def)
  next
    assume le: "length (chunks (serveSylsToTrie
         (new_ChunkFramework txt (wt_ignoreChars (new_WordTokenizer config1 ignoreChars)) sp)))
        \<le> fuel"
    then have le2: "length (chunks (serveSylsToTrie
         (new_ChunkFramework txt (wt_ignoreChars (new_WordTokenizer config2 ignoreChars)) sp)))
        \<le> fuel" by (simp add: ig)
    from wt_tokenize_new[OF le, of sa] wt_tokenize_new[OF le2, of sa]
    show "\<exists>tokens.
          wt_tokenize fuel (new_WordTokenizer config1 ignoreChars) txt sa sp
            = Some (Inr (tokens, new_WordTokenizer config1 ignoreChars))
          \<and> wt_tokenize fuel (new_WordTokenizer config2 ignoreChars) txt sa sp
            = Some (Inr (tokens, new_WordTokenizer config2 ignoreChars))
          \<and> (\<forall>t\<in>set tokens. t_senses t = None)"
      by (auto simp: ig plain_token_no_senses)
  qed
qed

text \<open>Witness for C10: the greeting, tokenized under a configuration with a dictionary
  and under the default configuration.\<close>

theorem wordtokenizer_ignores_dictionary_witness:
  "\<exists>tokens.
      wt_tokenize 2 (new_WordTokenizer (Some dictionary_config) None) greeting True False
        = Some (Inr (tokens, new_WordTokenizer (Some dictionary_config) None))
      \<and> wt_tokenize 2 (new_WordTokenizer None None) greeting True False
        = Some (Inr (tokens, new_WordTokenizer None None))
      \<and> length tokens = 2
      \<and> (\<forall>t\<in>set tokens. t_senses t = None)"
proof -
  have le: "length (chunks (serveSylsToTrie
         (new_ChunkFramework greeting
            (wt_ignoreChars (new_WordTokenizer (Some dictionary_config) None)) False))) \<le> 2"
    by code_simp
  have n: "map_option (map_sum id (length \<circ> fst))
             (wt_tokenize 2 (new_WordTokenizer None None) greeting True False) = Some (Inr 2)"
    by code_simp
  from wordtokenizer_ignores_dictionary[of "Some dictionary_config" None greeting False 2
         True None] le
  obtain tokens where t:
    "wt_tokenize 2 (new_WordTokenizer (Some dictionary_config) None) greeting True False
        = Some (Inr (tokens, new_WordTokenizer (Some dictionary_config) None))"
    "wt_tokenize 2 (new_WordTokenizer None None) greeting True False
        = Some (Inr (tokens, new_WordTokenizer None None))"
    "\<forall>t\<in>set tokens. t_senses t = None"
    by blast
  from n t(2) have "length tokens = 2" by simp
  with t show ?thesis by blast
qed

text \<open>
  C1, evaluated on the three syllables and the trie that holds one three-syllable
  word. The walk passes two nodes that are not word ends and fails at the third
  syllable; the attempt emits a token for the first syllable and leaves \<open>cIdx\<close> at 0
  (the cursor that \<open>addFoundWordOrNonWord\<close> returns is dropped), so every outer
  iteration starts from the same state and the call never returns.
\<close>

theorem tokenize_never_returns_on_unmatched_prefix:
  "tokenize fuel prefix_trie three_syllables_frame = None"
proof -
  have len: "0 < length (chunks three_syllables_frame)" by code_simp
  have step: "walk_loop three_syllables_frame prefix_trie 0 toks 0 [] [] [] None
      = Inr (toks @ [(plain_token three_syllables_frame 0)
                \<lparr> t_senses := Some [\<lparr> s_pos = Some (js ''NO_POS''), s_freq = None,
                                     s_lemma = None, s_sense = None, s_affixed = None, s_other = [] \<rparr>] \<rparr>],
             0, prefix_trie)" for toks
    by code_simp
  have "tokenize_loop fuel three_syllables_frame prefix_trie 0 toks = None" for toks
  proof (induction fuel arbitrary: toks)
    case 0
    with len show ?case by (simp add: tokenize_loop.simps)
  next
    case (Suc fuel)
    with len step show ?case by (simp add: tokenize_loop.simps[of "Suc fuel"])
  qed
  then show ?thesis by (simp add: tokenize_def)
qed

text \<open>
  C5 (amended). Tokenizing the greeting with an empty trie yields exactly two tokens,
  both of chunk type TEXT: the first syllable with its trailing tsek (start 0,
  length 4) and the second syllable together with the shad (start 4, length 4). The
  two spans follow one another and cover the eight code units of the input.
\<close>

theorem greeting_yields_two_text_tokens:
  "map_option (map token_view)
     (result_tokens (tokenize (2 + fuel) new_BasicTrie greeting_frame))
   = Some [([0x0F56, 0x0F40, 0x0FB2, 0x0F0B], 0, 4, js ''TEXT''),
           ([0x0F64, 0x0F72, 0x0F66, 0x0F0D], 4, 4, js ''TEXT'')]
   \<and> length greeting = 8"
proof -
  have ev: "tokenize_loop 2 greeting_frame new_BasicTrie 0 []
      = Some (Inr ([plain_token greeting_frame 0, plain_token greeting_frame 1], new_BasicTrie))"
    by code_simp
  have vw: "map token_view [plain_token greeting_frame 0, plain_token greeting_frame 1]
      = [([0x0F56, 0x0F40, 0x0FB2, 0x0F0B], 0, 4, js ''TEXT''),
         ([0x0F64, 0x0F72, 0x0F66, 0x0F0D], 4, 4, js ''TEXT'')]"
    by code_simp
  have "length greeting = 8" by (simp add: greeting_def)
  with tokenize_loop_more_fuel[OF ev, of fuel] vw show ?thesis
    by (simp add: tokenize_def result_tokens_def)
qed

text \<open>Counterexample to C5 as stated: the call returns two tokens, not three; their
  texts end in the tsek and in the shad, and they carry no pos.\<close>

theorem greeting_gives_two_tokens:
  "map_option length (result_tokens (tokenize 2 new_BasicTrie greeting_frame)) = Some 2
   \<and> map_option (map t_text) (result_tokens (tokenize 2 new_BasicTrie greeting_frame))
       = Some [[0x0F56, 0x0F40, 0x0FB2, 0x0F0B], [0x0F64, 0x0F72, 0x0F66, 0x0F0D]]
   \<and> map_option (map t_pos) (result_tokens (tokenize 2 new_BasicTrie greeting_frame))
       = Some [None, None]"
  by code_simp


end
